theory Spec2Isabelle
  imports Complex_Main
begin

section \<open>JavaScript numbers and values\<close>

text \<open>
  A JavaScript number is a finite real or one of the three non-finite values. The
  operations of this section are exact on finite numbers; the rounding of IEEE doubles
  is modelled apart, by \<open>round64\<close> and the rounded operations built on it below, which
  the odds conversions use where a property depends on the rounding. Negative zero is
  identified with zero; the only divisors of the program that can be zero are absolute
  values and counts, which are never negative zero.
\<close>

datatype jsnum = Num real | NaN | PosInf | NegInf

fun isFinite :: "jsnum \<Rightarrow> bool" where
  "isFinite (Num a) = True"
| "isFinite x = False"

fun jneg :: "jsnum \<Rightarrow> jsnum" where
  "jneg (Num a) = Num (- a)"
| "jneg NaN = NaN"
| "jneg PosInf = NegInf"
| "jneg NegInf = PosInf"

fun jadd :: "jsnum \<Rightarrow> jsnum \<Rightarrow> jsnum" where
  "jadd (Num a) (Num b) = Num (a + b)"
| "jadd NaN y = NaN"
| "jadd x NaN = NaN"
| "jadd PosInf NegInf = NaN"
| "jadd NegInf PosInf = NaN"
| "jadd PosInf y = PosInf"
| "jadd x PosInf = PosInf"
| "jadd NegInf y = NegInf"
| "jadd x NegInf = NegInf"

definition jsub :: "jsnum \<Rightarrow> jsnum \<Rightarrow> jsnum" where
  "jsub x y = jadd x (jneg y)"

fun jmul :: "jsnum \<Rightarrow> jsnum \<Rightarrow> jsnum" where
  "jmul (Num a) (Num b) = Num (a * b)"
| "jmul NaN y = NaN"
| "jmul x NaN = NaN"
| "jmul (Num a) PosInf = (if a = 0 then NaN else if 0 < a then PosInf else NegInf)"
| "jmul (Num a) NegInf = (if a = 0 then NaN else if 0 < a then NegInf else PosInf)"
| "jmul PosInf (Num b) = (if b = 0 then NaN else if 0 < b then PosInf else NegInf)"
| "jmul NegInf (Num b) = (if b = 0 then NaN else if 0 < b then NegInf else PosInf)"
| "jmul PosInf PosInf = PosInf"
| "jmul PosInf NegInf = NegInf"
| "jmul NegInf PosInf = NegInf"
| "jmul NegInf NegInf = PosInf"

fun jdiv :: "jsnum \<Rightarrow> jsnum \<Rightarrow> jsnum" where
  "jdiv (Num a) (Num b) =
     (if b = 0 then (if a = 0 then NaN else if 0 < a then PosInf else NegInf)
      else Num (a / b))"
| "jdiv NaN y = NaN"
| "jdiv x NaN = NaN"
| "jdiv (Num a) y = Num 0"
| "jdiv PosInf (Num b) = (if 0 \<le> b then PosInf else NegInf)"
| "jdiv NegInf (Num b) = (if 0 \<le> b then NegInf else PosInf)"
| "jdiv x y = NaN"

text \<open>The relational operators: every comparison with \<open>NaN\<close> is false.\<close>

fun jlt :: "jsnum \<Rightarrow> jsnum \<Rightarrow> bool" where
  "jlt (Num a) (Num b) = (a < b)"
| "jlt NaN y = False"
| "jlt x NaN = False"
| "jlt x NegInf = False"
| "jlt PosInf y = False"
| "jlt x PosInf = True"
| "jlt NegInf y = True"

definition jgt :: "jsnum \<Rightarrow> jsnum \<Rightarrow> bool" where
  "jgt x y = jlt y x"

definition jle :: "jsnum \<Rightarrow> jsnum \<Rightarrow> bool" where
  "jle x y = (x \<noteq> NaN \<and> y \<noteq> NaN \<and> \<not> jlt y x)"

definition jge :: "jsnum \<Rightarrow> jsnum \<Rightarrow> bool" where
  "jge x y = jle y x"

text \<open>\<open>Math.max\<close>, \<open>Math.min\<close>, \<open>Math.abs\<close>, \<open>Math.sqrt\<close>, \<open>Math.exp\<close>, \<open>Math.round\<close>.\<close>

definition jmax :: "jsnum \<Rightarrow> jsnum \<Rightarrow> jsnum" where
  "jmax x y = (if x = NaN \<or> y = NaN then NaN else if jlt x y then y else x)"

definition jmin :: "jsnum \<Rightarrow> jsnum \<Rightarrow> jsnum" where
  "jmin x y = (if x = NaN \<or> y = NaN then NaN else if jlt y x then y else x)"

fun jabs :: "jsnum \<Rightarrow> jsnum" where
  "jabs (Num a) = Num \<bar>a\<bar>"
| "jabs NaN = NaN"
| "jabs x = PosInf"

fun jsqrt :: "jsnum \<Rightarrow> jsnum" where
  "jsqrt (Num a) = (if a < 0 then NaN else Num (sqrt a))"
| "jsqrt PosInf = PosInf"
| "jsqrt x = NaN"

fun jexp :: "jsnum \<Rightarrow> jsnum" where
  "jexp (Num a) = Num (exp a)"
| "jexp NaN = NaN"
| "jexp PosInf = PosInf"
| "jexp NegInf = Num 0"

fun jround :: "jsnum \<Rightarrow> jsnum" where
  "jround (Num a) = Num (of_int \<lfloor>a + 1 / 2\<rfloor>)"
| "jround x = x"

text \<open>
  \<open>x.toFixed(1)\<close> writes \<open>x\<close> with one decimal, rounding the absolute value half up.
  The program only ever reads the text back as a number, so the model keeps the number
  the text denotes.
\<close>

fun toFixed1 :: "jsnum \<Rightarrow> jsnum" where
  "toFixed1 (Num a) = Num (sgn a * of_int \<lfloor>\<bar>a\<bar> * 10 + 1 / 2\<rfloor> / 10)"
| "toFixed1 x = x"

fun toFixed2 :: "jsnum \<Rightarrow> jsnum" where
  "toFixed2 (Num a) = Num (sgn a * of_int \<lfloor>\<bar>a\<bar> * 100 + 1 / 2\<rfloor> / 100)"
| "toFixed2 x = x"

fun jtruthy :: "jsnum \<Rightarrow> bool" where
  "jtruthy (Num a) = (a \<noteq> 0)"
| "jtruthy NaN = False"
| "jtruthy x = True"

text \<open>
  A value held by a row, a form field or a stored model: \<open>undefined\<close>, \<open>null\<close>, a
  number or a string (CSV cells are numbers or strings, absent columns are
  \<open>undefined\<close>).
\<close>

datatype jsval = JUndefined | JNull | JNumber jsnum | JString string

subsection \<open>Reading a string as a number\<close>

definition isWhite :: "char \<Rightarrow> bool" where
  "isWhite c = (c \<in> set [CHR '' '', CHR 0x09, CHR 0x0A, CHR 0x0B, CHR 0x0C, CHR 0x0D])"

definition isDigit :: "char \<Rightarrow> bool" where
  "isDigit c = (48 \<le> (of_char c :: nat) \<and> (of_char c :: nat) \<le> 57)"

definition digitsValue :: "string \<Rightarrow> nat" where
  "digitsValue ds = foldl (\<lambda>n c. 10 * n + ((of_char c :: nat) - 48)) 0 ds"

definition hexDigit :: "char \<Rightarrow> nat option" where
  "hexDigit c =
     (let k = (of_char c :: nat)
      in if 48 \<le> k \<and> k \<le> 57 then Some (k - 48)
         else if 97 \<le> k \<and> k \<le> 102 then Some (k - 87)
         else if 65 \<le> k \<and> k \<le> 70 then Some (k - 55)
         else None)"

text \<open>
  The number a numeric literal of exact value \<open>v\<close> denotes, as far as its magnitude goes:
  from \<open>2^1024 - 2^970\<close> on (half a unit above the largest double) it is an infinity, and
  up to \<open>2^-1075\<close> (half the smallest double) it is zero. In between the exact value
  stands for the double next to it.
\<close>

definition literalValue :: "real \<Rightarrow> jsnum" where
  "literalValue v =
     (if 2 ^ 1024 - 2 ^ 970 \<le> \<bar>v\<bar> then (if v < 0 then NegInf else PosInf)
      else if \<bar>v\<bar> \<le> 1 / 2 ^ 1075 then Num 0
      else Num v)"

definition radixValue :: "nat \<Rightarrow> string \<Rightarrow> jsnum" where
  "radixValue b ds =
     (if ds \<noteq> [] \<and> list_all (\<lambda>c. case hexDigit c of None \<Rightarrow> False | Some d \<Rightarrow> d < b) ds
      then literalValue
             (real (foldl (\<lambda>n c. case hexDigit c of None \<Rightarrow> b * n | Some d \<Rightarrow> b * n + d) 0 ds))
      else NaN)"

definition takeSign :: "string \<Rightarrow> bool \<times> string" where
  "takeSign s =
     (case s of
        [] \<Rightarrow> (False, s)
      | c # r \<Rightarrow> if c = CHR ''-'' then (True, r) else if c = CHR ''+'' then (False, r)
                 else (False, s))"

text \<open>A fraction: a dot and the digits after it (possibly none), with the rest.\<close>

definition takeFraction :: "string \<Rightarrow> string \<times> string" where
  "takeFraction s =
     (case s of
        [] \<Rightarrow> ([], s)
      | c # r \<Rightarrow> if c = CHR ''.'' then (takeWhile isDigit r, dropWhile isDigit r) else ([], s))"

text \<open>
  An exponent: \<open>e\<close> or \<open>E\<close>, an optional sign and at least one digit; the flag says
  that the exponent is negative.
\<close>

definition takeExponent :: "string \<Rightarrow> (bool \<times> nat \<times> string) option" where
  "takeExponent s =
     (case s of
        [] \<Rightarrow> None
      | c # r \<Rightarrow>
          if c = CHR ''e'' \<or> c = CHR ''E''
          then let signed = takeSign r;
                   ed = takeWhile isDigit (snd signed)
               in if ed = [] then None
                  else Some (fst signed, digitsValue ed, dropWhile isDigit (snd signed))
          else None)"

definition scale10 :: "real \<Rightarrow> bool \<Rightarrow> nat \<Rightarrow> real" where
  "scale10 m down e = (if down then m / 10 ^ e else m * 10 ^ e)"

text \<open>
  The longest prefix of a string that is a signed decimal literal (digits, an optional
  fraction, an optional exponent, or \<open>Infinity\<close>), with its value and the rest of the
  string; \<open>None\<close> when no prefix is one.
\<close>

definition strDecimalPrefix :: "string \<Rightarrow> (jsnum \<times> string) option" where
  "strDecimalPrefix s =
     (let signed = takeSign s;
          neg = fst signed;
          s1 = snd signed
      in if take 8 s1 = ''Infinity'' then Some (if neg then NegInf else PosInf, drop 8 s1)
         else
           let ip = takeWhile isDigit s1;
               fraction = takeFraction (dropWhile isDigit s1);
               fp = fst fraction;
               m = real (digitsValue ip) + real (digitsValue fp) / 10 ^ length fp
           in if ip = [] \<and> fp = [] then None
              else (case takeExponent (snd fraction) of
                      None \<Rightarrow> Some (literalValue (if neg then - m else m), snd fraction)
                    | Some (down, e, r) \<Rightarrow>
                        Some (literalValue (if neg then - scale10 m down e else scale10 m down e),
                              r)))"

definition trim :: "string \<Rightarrow> string" where
  "trim s = rev (dropWhile isWhite (rev (dropWhile isWhite s)))"

text \<open>
  \<open>Number(s)\<close> on a string: the whole trimmed string must be a numeric literal, and
  the empty string is 0. (Characters are bytes here: the white space outside ASCII that
  JavaScript also trims is not modelled.)
\<close>

definition stringToNumber :: "string \<Rightarrow> jsnum" where
  "stringToNumber s =
     (let t = trim s
      in if t = [] then Num 0
         else if take 2 t = ''0x'' \<or> take 2 t = ''0X'' then radixValue 16 (drop 2 t)
         else if take 2 t = ''0o'' \<or> take 2 t = ''0O'' then radixValue 8 (drop 2 t)
         else if take 2 t = ''0b'' \<or> take 2 t = ''0B'' then radixValue 2 (drop 2 t)
         else (case strDecimalPrefix t of
                 Some (v, []) \<Rightarrow> v
               | _ \<Rightarrow> NaN))"

text \<open>\<open>parseFloat(s)\<close> on a string: the longest decimal prefix after leading blanks.\<close>

definition stringParseFloat :: "string \<Rightarrow> jsnum" where
  "stringParseFloat s =
     (case strDecimalPrefix (dropWhile isWhite s) of
        None \<Rightarrow> NaN
      | Some (v, r) \<Rightarrow> v)"

subsection \<open>Coercions and operators on values\<close>

fun toNumber :: "jsval \<Rightarrow> jsnum" where
  "toNumber JUndefined = NaN"
| "toNumber JNull = Num 0"
| "toNumber (JNumber n) = n"
| "toNumber (JString s) = stringToNumber s"

fun parseFloat :: "jsval \<Rightarrow> jsnum" where
  "parseFloat JUndefined = NaN"
| "parseFloat JNull = NaN"
| "parseFloat (JNumber n) = n"
| "parseFloat (JString s) = stringParseFloat s"

fun truthy :: "jsval \<Rightarrow> bool" where
  "truthy JUndefined = False"
| "truthy JNull = False"
| "truthy (JNumber n) = jtruthy n"
| "truthy (JString s) = (s \<noteq> [])"

text \<open>\<open>a || b\<close> is the first operand when it is truthy, the second otherwise.\<close>

definition jor :: "jsval \<Rightarrow> jsval \<Rightarrow> jsval" where
  "jor a b = (if truthy a then a else b)"

text \<open>\<open>v === undefined || v === null || v === ''\<close>, the program's test for a blank cell.\<close>

definition isBlank :: "jsval \<Rightarrow> bool" where
  "isBlank v = (v = JUndefined \<or> v = JNull \<or> v = JString [])"

section \<open>Rounding to doubles\<close>

text \<open>
  The runtime keeps every number as an IEEE 754 double and rounds the exact result of
  each arithmetic operation to the nearest double, a tie going to the double whose last
  bit is even. \<open>roundEven\<close> rounds a real to the nearest integer in that way.
\<close>

definition roundEven :: "real \<Rightarrow> int" where
  "roundEven y =
     (let n = \<lfloor>y\<rfloor>;
          f = y - of_int n
      in if f < 1 / 2 then n else if 1 / 2 < f then n + 1 else if even n then n else n + 1)"

text \<open>
  The doubles next to a number \<open>a > 0\<close> are the multiples of its quantum \<open>q\<close>, the power
  of two with \<open>q * 2^52 \<le> a < q * 2^53\<close>, and of \<open>2^-1074\<close> for the numbers below
  \<open>2^-1022\<close>. The search starts from the quantum \<open>2^-52\<close> of the numbers between 1 and
  2 and doubles or halves it; 2200 steps reach every quantum a double can have, and a
  number beyond them is rounded to an infinity whatever the search returns.
\<close>

fun quantumSearch :: "nat \<Rightarrow> real \<Rightarrow> real \<Rightarrow> real" where
  "quantumSearch 0 a q = q"
| "quantumSearch (Suc k) a q =
     (if q * 2 ^ 53 \<le> a then quantumSearch k a (2 * q)
      else if a < q * 2 ^ 52 \<and> 1 / 2 ^ 1074 < q then quantumSearch k a (q / 2)
      else q)"

definition quantum :: "real \<Rightarrow> real" where
  "quantum x = quantumSearch 2200 \<bar>x\<bar> (1 / 2 ^ 52)"

text \<open>
  The double nearest to a real; a result of magnitude \<open>2^1024\<close> or more is an infinity.
\<close>

definition round64 :: "real \<Rightarrow> jsnum" where
  "round64 x =
     (let q = quantum x;
          r = of_int (roundEven (x / q)) * q
      in if 2 ^ 1024 \<le> \<bar>r\<bar> then (if 0 < x then PosInf else NegInf) else Num r)"

fun rounded :: "jsnum \<Rightarrow> jsnum" where
  "rounded (Num a) = round64 a"
| "rounded x = x"

text \<open>The operators \<open>+\<close>, \<open>-\<close>, \<open>*\<close> and \<open>/\<close> on doubles: the exact result, rounded.\<close>

definition dadd :: "jsnum \<Rightarrow> jsnum \<Rightarrow> jsnum" where
  "dadd x y = rounded (jadd x y)"

definition dsub :: "jsnum \<Rightarrow> jsnum \<Rightarrow> jsnum" where
  "dsub x y = rounded (jsub x y)"

definition dmul :: "jsnum \<Rightarrow> jsnum \<Rightarrow> jsnum" where
  "dmul x y = rounded (jmul x y)"

definition ddiv :: "jsnum \<Rightarrow> jsnum \<Rightarrow> jsnum" where
  "ddiv x y = rounded (jdiv x y)"

text \<open>\<open>Number(v)\<close> as a double: the numeral of a string is rounded to the nearest double.\<close>

fun toNumber64 :: "jsval \<Rightarrow> jsnum" where
  "toNumber64 (JString s) = rounded (stringToNumber s)"
| "toNumber64 v = toNumber v"

section \<open>Odds conversion\<close>

text \<open>
  \<open>sigmoid\<close>, \<open>moneylineToFairProb\<close>, \<open>removeVig\<close> and \<open>probToMoneyline\<close> of
  \<open>unnamed/part_002\<close>, lines 1162 to 1182 (the same text as \<open>unnamed/part_001\<close>, lines
  256 to 276). The first three are used by the training and the backtest, in exact
  arithmetic; the three conversions are given in doubles afterwards.
\<close>

definition sigmoid :: "jsnum \<Rightarrow> jsnum" where
  "sigmoid z = jdiv (Num 1) (jadd (Num 1) (jexp (jneg z)))"

definition moneylineToFairProb :: "jsval \<Rightarrow> jsnum" where
  "moneylineToFairProb ml =
     (let num = toNumber ml
      in if \<not> isFinite num then Num 0.5
         else if jgt num (Num 0) then jdiv (Num 100) (jadd num (Num 100))
         else let neg = jabs num in jdiv neg (jadd neg (Num 100)))"

definition removeVig :: "jsnum \<Rightarrow> jsnum \<Rightarrow> jsnum \<times> jsnum" where
  "removeVig p1 p2 =
     (let total = jadd p1 p2
      in if \<not> isFinite total \<or> jle total (Num 1.0001) then (p1, p2)
         else (jdiv p1 total, jdiv p2 total))"

subsection \<open>The conversions in doubles\<close>

text \<open>
  The same functions with every operation rounded as the runtime rounds it. The
  constants 0, 0.5, 1 and 100 are doubles; \<open>1.0001\<close> is not, and the program compares
  with the double nearest to it. \<open>Math.round\<close> and \<open>Math.abs\<close> are exact on doubles.
\<close>

definition moneylineToFairProb64 :: "jsval \<Rightarrow> jsnum" where
  "moneylineToFairProb64 ml =
     (let num = toNumber64 ml
      in if \<not> isFinite num then Num 0.5
         else if jgt num (Num 0) then ddiv (Num 100) (dadd num (Num 100))
         else let neg = jabs num in ddiv neg (dadd neg (Num 100)))"

definition removeVig64 :: "jsnum \<Rightarrow> jsnum \<Rightarrow> jsnum \<times> jsnum" where
  "removeVig64 p1 p2 =
     (let total = dadd p1 p2
      in if \<not> isFinite total \<or> jle total (round64 1.0001) then (p1, p2)
         else (ddiv p1 total, ddiv p2 total))"

definition probToMoneyline64 :: "jsnum \<Rightarrow> jsnum" where
  "probToMoneyline64 prob =
     (if \<not> isFinite prob \<or> jle prob (Num 0) \<or> jge prob (Num 1) then Num 0
      else if jge prob (Num 0.5)
        then jround (dmul (jneg (ddiv prob (dsub (Num 1) prob))) (Num 100))
      else jround (dmul (ddiv (dsub (Num 1) prob) prob) (Num 100)))"

section \<open>Expected value of a wager\<close>

text \<open>
  \<open>calculateEV\<close>, \<open>calculateSpreadEV\<close> and \<open>calculateTotalEV\<close> of
  \<open>unnamed/part_002\<close>, lines 1851 to 1931 (\<open>unnamed/part_001\<close>, lines 756 to 836, has
  the same expressions).
\<close>

text \<open>
  The odds and line arguments reach the arithmetic through the operators \<open>>\<close>, \<open>/\<close>,
  \<open>*\<close> and \<open>Math.abs\<close>, which all coerce to a number first; the functions below take
  that number. The formatted fields (\<open>toFixed(1)\<close>) are kept as the numbers they denote.
\<close>

definition payoutMultiplier :: "jsnum \<Rightarrow> jsnum" where
  "payoutMultiplier odds =
     (if jgt odds (Num 0) then jadd (jdiv odds (Num 100)) (Num 1)
      else jadd (Num 1) (jdiv (Num 100) (jabs odds)))"

definition sideEV :: "jsnum \<Rightarrow> jsnum \<Rightarrow> jsnum" where
  "sideEV fair payout = jmul (jsub (jmul fair payout) (jsub (Num 1) fair)) (Num 100)"

datatype side = Team1 | Team2

record ev_result =
  ev1 :: jsnum
  ev2 :: jsnum
  bestEV :: jsnum
  side :: side

definition calculateEV :: "jsnum \<Rightarrow> jsnum \<Rightarrow> jsnum \<Rightarrow> ev_result" where
  "calculateEV modelProb ml1 ml2 =
     (let fair1 = modelProb;
          fair2 = jsub (Num 1) modelProb;
          payout1 = payoutMultiplier ml1;
          payout2 = payoutMultiplier ml2;
          e1 = sideEV fair1 payout1;
          e2 = sideEV fair2 payout2
      in \<lparr>ev1 = toFixed1 e1, ev2 = toFixed1 e2, bestEV = toFixed1 (jmax e1 e2),
          side = (if jgt e1 e2 then Team1 else Team2)\<rparr>)"

text \<open>The clamped heuristic probabilities of the spread and total markets.\<close>

definition team1CoverProb :: "jsnum \<Rightarrow> jsnum \<Rightarrow> jsnum" where
  "team1CoverProb team1WinProb spread =
     (let spreadMagnitude = jabs spread;
          raw = (if jlt spread (Num 0)
                 then jmul team1WinProb (jsub (Num 0.85) (jmul spreadMagnitude (Num 0.02)))
                 else jadd team1WinProb
                        (jmul (jmul (jsub (Num 1) team1WinProb) spreadMagnitude) (Num 0.05)))
      in jmax (Num 0.1) (jmin (Num 0.9) raw))"

record spread_result = ev_result +
  team1CoverPct :: jsnum
  team2CoverPct :: jsnum

definition calculateSpreadEV :: "jsnum \<Rightarrow> jsnum \<Rightarrow> jsnum \<Rightarrow> jsnum \<Rightarrow> spread_result" where
  "calculateSpreadEV team1WinProb spread odds1 odds2 =
     (let c1 = team1CoverProb team1WinProb spread;
          c2 = jsub (Num 1) c1;
          payout1 = payoutMultiplier odds1;
          payout2 = payoutMultiplier odds2;
          e1 = sideEV c1 payout1;
          e2 = sideEV c2 payout2
      in \<lparr>ev1 = toFixed1 e1, ev2 = toFixed1 e2, bestEV = toFixed1 (jmax e1 e2),
          side = (if jgt e1 e2 then Team1 else Team2),
          team1CoverPct = toFixed1 (jmul c1 (Num 100)),
          team2CoverPct = toFixed1 (jmul c2 (Num 100))\<rparr>)"

definition overProb :: "jsnum \<Rightarrow> jsnum" where
  "overProb team1WinProb =
     (let scoringFactor = jadd (Num 0.45) (jmul team1WinProb (Num 0.1))
      in jmax (Num 0.3) (jmin (Num 0.7) scoringFactor))"

datatype total_side = Over | Under

record total_result =
  evOver :: jsnum
  evUnder :: jsnum
  bestTotalEV :: jsnum
  totalSide :: total_side
  overPct :: jsnum
  underPct :: jsnum

definition calculateTotalEV :: "jsnum \<Rightarrow> jsnum \<Rightarrow> jsnum \<Rightarrow> jsnum \<Rightarrow> total_result" where
  "calculateTotalEV team1WinProb totalLine overOdds underOdds =
     (let po = overProb team1WinProb;
          pu = jsub (Num 1) po;
          payoutOver = payoutMultiplier overOdds;
          payoutUnder = payoutMultiplier underOdds;
          eo = sideEV po payoutOver;
          eu = sideEV pu payoutUnder
      in \<lparr>evOver = toFixed1 eo, evUnder = toFixed1 eu, bestTotalEV = toFixed1 (jmax eo eu),
          totalSide = (if jgt eo eu then Over else Under),
          overPct = toFixed1 (jmul po (Num 100)),
          underPct = toFixed1 (jmul pu (Num 100))\<rparr>)"

section \<open>Rows and text helpers\<close>

text \<open>
  A game row is a JavaScript object read by property name; a property the row does not
  have reads as \<open>undefined\<close>.
\<close>

type_synonym row = "string \<Rightarrow> jsval"

fun startsWith :: "string \<Rightarrow> string \<Rightarrow> bool" where
  "startsWith [] s = True"
| "startsWith (c # cs) [] = False"
| "startsWith (c # cs) (d # ds) = (c = d \<and> startsWith cs ds)"

text \<open>\<open>strIncludes sub s\<close> is \<open>s.includes(sub)\<close>.\<close>

fun strIncludes :: "string \<Rightarrow> string \<Rightarrow> bool" where
  "strIncludes sub [] = (sub = [])"
| "strIncludes sub (d # ds) = (startsWith sub (d # ds) \<or> strIncludes sub ds)"

text \<open>
  Reading an array of numbers past its end gives \<open>undefined\<close>; every use of such a read
  in the program (arithmetic, \<open>Number.isFinite\<close>, \<open>===\<close> with a number) treats it as
  \<open>NaN\<close> does.
\<close>

definition nthOr :: "jsnum list \<Rightarrow> nat \<Rightarrow> jsnum" where
  "nthOr xs j = (if j < length xs then xs ! j else NaN)"

text \<open>\<open>Number.isFinite(v) ? v : d\<close>.\<close>

definition finiteOr :: "jsnum \<Rightarrow> jsnum \<Rightarrow> jsnum" where
  "finiteOr d v = (if isFinite v then v else d)"

section \<open>Training: \<open>trainLogisticRegression\<close>\<close>

text \<open>
  \<open>unnamed/part_002\<close>, lines 1218 to 1297. The matrix \<open>X\<close> is a list of rows of numbers
  and \<open>y\<close> the list of labels; \<open>X[0].length\<close> throws when \<open>X\<close> is empty. The weights
  always have one entry per feature, so the gradient array is as long as the weights.
\<close>

datatype js_error = TypeError

record options =
  learningRate :: "jsnum option"
  epochs :: "nat option"
  lambda :: "jsnum option"

record model_core =
  weights :: "jsnum list"
  bias :: jsnum
  means :: "jsnum list"
  stds :: "jsnum list"

record train_result = model_core +
  accuracy :: jsnum
  samplesUsed :: nat

text \<open>The column mean: the loop adds up the finite entries (others count as 0).\<close>

definition columnMean :: "jsnum list list \<Rightarrow> nat \<Rightarrow> jsnum" where
  "columnMean X j =
     jdiv (foldl (\<lambda>sum xrow. jadd sum (finiteOr (Num 0) (nthOr xrow j))) (Num 0) X)
          (Num (real (length X)))"

definition columnStd :: "jsnum list list \<Rightarrow> jsnum list \<Rightarrow> nat \<Rightarrow> jsnum" where
  "columnStd X ms j =
     (let variance = foldl (\<lambda>var xrow.
                        let diff = jsub (finiteOr (Num 0) (nthOr xrow j)) (nthOr ms j)
                        in jadd var (jmul diff diff)) (Num 0) X;
          s = jsqrt (jdiv variance (Num (real (length X))))
      in if jtruthy s then s else Num 1)"

definition normalizeRow :: "jsnum list \<Rightarrow> jsnum list \<Rightarrow> jsnum list \<Rightarrow> jsnum list" where
  "normalizeRow ms ss xrow =
     map (\<lambda>(j, val). jdiv (jsub (finiteOr (Num 0) val) (nthOr ms j)) (nthOr ss j))
         (zip [0..<length xrow] xrow)"

text \<open>\<open>b + ws.reduce((sum, w, j) => sum + w * xs[j], 0)\<close>.\<close>

definition linear :: "jsnum \<Rightarrow> jsnum list \<Rightarrow> jsnum list \<Rightarrow> jsnum" where
  "linear b ws xs =
     jadd b (foldl (\<lambda>sum (j, w). jadd sum (jmul w (nthOr xs j))) (Num 0) (zip [0..<length ws] ws))"

text \<open>One pass over the samples, accumulating the gradient of the weights and the bias.\<close>

definition gradients ::
  "jsnum list list \<Rightarrow> jsnum list \<Rightarrow> jsnum list \<Rightarrow> jsnum \<Rightarrow> jsnum list \<times> jsnum" where
  "gradients Xnorm y ws b =
     foldl (\<lambda>(gradW, gradB) (i, xrow).
              let z = linear b ws xrow;
                  p = sigmoid z;
                  err = jsub p (nthOr y i)
              in (map (\<lambda>(j, g). jadd g (jmul err (nthOr xrow j))) (zip [0..<length gradW] gradW),
                  jadd gradB err))
           (replicate (length ws) (Num 0), Num 0)
           (zip [0..<length Xnorm] Xnorm)"

definition epochStep ::
  "jsnum list list \<Rightarrow> jsnum list \<Rightarrow> jsnum \<Rightarrow> jsnum \<Rightarrow> jsnum list \<times> jsnum \<Rightarrow> jsnum list \<times> jsnum" where
  "epochStep Xnorm y rate lam st =
     (let ws = fst st;
          b = snd st;
          n = Num (real (length Xnorm));
          g = gradients Xnorm y ws b;
          gradW = map (\<lambda>g. jdiv g n) (fst g);
          gradB = jdiv (snd g) n
      in (map (\<lambda>(j, w). jsub w (jmul rate (jadd (nthOr gradW j) (jmul lam w))))
              (zip [0..<length ws] ws),
          jsub b (jmul rate gradB)))"

fun epochLoop ::
  "nat \<Rightarrow> jsnum list list \<Rightarrow> jsnum list \<Rightarrow> jsnum \<Rightarrow> jsnum \<Rightarrow> jsnum list \<times> jsnum \<Rightarrow> jsnum list \<times> jsnum" where
  "epochLoop 0 Xnorm y rate lam st = st"
| "epochLoop (Suc k) Xnorm y rate lam st = epochLoop k Xnorm y rate lam (epochStep Xnorm y rate lam st)"

definition countCorrect :: "jsnum list \<Rightarrow> jsnum list \<Rightarrow> nat" where
  "countCorrect preds y =
     foldl (\<lambda>correct (i, p).
              if \<not> isFinite p then correct
              else if (if jge p (Num 0.5) then Num 1 else Num 0) = nthOr y i then correct + 1
              else correct)
           0 (zip [0..<length preds] preds)"

definition trainLogisticRegression ::
  "jsnum list list \<Rightarrow> jsnum list \<Rightarrow> options \<Rightarrow> js_error + train_result" where
  "trainLogisticRegression X y opts =
     (case X of
        [] \<Rightarrow> Inl TypeError
      | x0 # rest \<Rightarrow>
          let nFeatures = length x0;
              rate = (case learningRate opts of None \<Rightarrow> Num 0.12 | Some v \<Rightarrow> v);
              nEpochs = (case epochs opts of None \<Rightarrow> 500 | Some v \<Rightarrow> v);
              lam = (case lambda opts of None \<Rightarrow> Num 0.012 | Some v \<Rightarrow> v);
              ms = map (columnMean X) [0..<nFeatures];
              ss = map (columnStd X ms) [0..<nFeatures];
              Xnorm = map (normalizeRow ms ss) X;
              fit = epochLoop nEpochs Xnorm y rate lam (replicate nFeatures (Num 0), Num 0);
              preds = map (\<lambda>xrow. sigmoid (linear (snd fit) (fst fit) xrow)) Xnorm;
              correct = countCorrect preds y
          in Inr \<lparr>weights = fst fit, bias = snd fit, means = ms, stds = ss,
                  accuracy = jdiv (Num (real correct)) (Num (real (length X))),
                  samplesUsed = length X\<rparr>)"

section \<open>Training: \<open>trainModel\<close>\<close>

text \<open>\<open>unnamed/part_002\<close>, lines 1607 to 1692.\<close>

datatype train_refusal = NeedAtLeast20Games | NoRowsWithWinner | TrainingFailed

record model = model_core +
  features :: "string list"

record train_stats =
  accuracyPct :: jsnum
  statsSamplesUsed :: nat

definition usable :: "row \<Rightarrow> bool" where
  "usable r =
     (r ''winner'' = JNumber (Num 0) \<or> r ''winner'' = JNumber (Num 1) \<or>
      r ''winner'' = JString ''0'' \<or> r ''winner'' = JString ''1'')"

definition featureValue :: "row \<Rightarrow> string \<Rightarrow> jsnum" where
  "featureValue r f =
     (if strIncludes ''moneyline'' f
      then let p1 = moneylineToFairProb (r ''team1_moneyline'');
               p2 = moneylineToFairProb (r ''team2_moneyline'');
               fair = removeVig p1 p2;
               val = (if f = ''team1_moneyline'' then fst fair else snd fair)
           in finiteOr (Num 0.5) val
      else finiteOr (Num 0) (toNumber (r f)))"

text \<open>
  The outcome of a click on "train": a refusal (the alert shown) or the model and the
  statistics stored. Saving the model to storage and to the server does not change them.
\<close>

definition trainModel :: "string list \<Rightarrow> row list \<Rightarrow> train_refusal + (model \<times> train_stats)" where
  "trainModel feats trainingData =
     (if length trainingData < 20 then Inl NeedAtLeast20Games
      else let usableRows = filter usable trainingData
           in if usableRows = [] then Inl NoRowsWithWinner
              else let X = map (\<lambda>r. map (featureValue r) feats) usableRows;
                       y = map (\<lambda>r. toNumber (r ''winner'')) usableRows
                   in (case trainLogisticRegression X y
                              \<lparr>learningRate = Some (Num 0.12), epochs = Some 500,
                               lambda = Some (Num 0.012)\<rparr> of
                         Inl e \<Rightarrow> Inl TrainingFailed
                       | Inr res \<Rightarrow>
                           Inr (\<lparr>weights = weights res, bias = bias res, means = means res,
                                 stds = stds res, features = feats\<rparr>,
                                \<lparr>accuracyPct = toFixed1 (jmul (accuracy res) (Num 100)),
                                 statsSamplesUsed = samplesUsed res\<rparr>)))"

subsection \<open>The statistics the normalisation is specified by\<close>

text \<open>
  The entries of column \<open>j\<close> as the training loops read them (a non-finite or missing
  entry counts as 0), the average of a list, and its population standard deviation
  (divisor \<open>n\<close>).
\<close>

definition columnValues :: "jsnum list list \<Rightarrow> nat \<Rightarrow> real list" where
  "columnValues X j =
     map (\<lambda>xrow. case finiteOr (Num 0) (nthOr xrow j) of Num a \<Rightarrow> a | _ \<Rightarrow> 0) X"

definition average :: "real list \<Rightarrow> real" where
  "average xs = sum_list xs / real (length xs)"

definition populationStd :: "real list \<Rightarrow> real" where
  "populationStd xs = sqrt (sum_list (map (\<lambda>x. (x - average xs)\<^sup>2) xs) / real (length xs))"

section \<open>Rolling form: \<open>addLast5WinColumns\<close>\<close>

text \<open>
  \<open>unnamed/part_002\<close>, lines 1190 to 1216 (\<open>checkSpreadWinner\<close>,
  \<open>determineWinnerFromScores\<close>) and 1299 to 1335 (\<open>addLast5WinColumns\<close>), and the
  version of \<open>addLast5WinColumns\<close> in \<open>src/SportsPredictionModel.jsx\<close>, lines 232 to
  267.
\<close>

subsection \<open>The history object and its keys\<close>

text \<open>
  The history is a plain object keyed by the team value. A property key is the text of
  the value; an integer below \<open>10^21\<close> is spelled with its decimal digits. The spelling
  of other finite numbers is not modelled: such a number is a key of its own here, while
  in the program it shares its key with the text that spells it. \<open>spelled\<close> holds of
  the values whose key is modelled exactly, and the properties of the rolling form are
  stated for rows whose team values are \<open>spelled\<close>.
\<close>

datatype propkey = Name string | Numeric real

function showNat :: "nat \<Rightarrow> string" where
  "showNat n =
     (if n < 10 then [''0123456789'' ! n]
      else showNat (n div 10) @ [''0123456789'' ! (n mod 10)])"
  by pat_completeness auto
termination
  by (relation "measure id") auto

declare showNat.simps [simp del]

fun propertyKey :: "jsval \<Rightarrow> propkey" where
  "propertyKey JUndefined = Name ''undefined''"
| "propertyKey JNull = Name ''null''"
| "propertyKey (JString s) = Name s"
| "propertyKey (JNumber NaN) = Name ''NaN''"
| "propertyKey (JNumber PosInf) = Name ''Infinity''"
| "propertyKey (JNumber NegInf) = Name ''-Infinity''"
| "propertyKey (JNumber (Num a)) =
     (if of_int \<lfloor>a\<rfloor> = a \<and> \<bar>a\<bar> < 10 ^ 21
      then Name ((if a < 0 then ''-'' else []) @ showNat (nat \<lfloor>\<bar>a\<bar>\<rfloor>))
      else Numeric a)"

fun spelled :: "jsval \<Rightarrow> bool" where
  "spelled (JNumber (Num a)) = (of_int \<lfloor>a\<rfloor> = a \<and> \<bar>a\<bar> < 10 ^ 21)"
| "spelled v = True"

text \<open>
  A fresh object already answers to the names it inherits from \<open>Object.prototype\<close>:
  \<open>history[name]\<close> is then a function or an object, not an array, and calling
  \<open>slice\<close> on it throws a \<open>TypeError\<close>.
\<close>

definition inheritedNames :: "string list" where
  "inheritedNames =
     [''constructor'', ''hasOwnProperty'', ''isPrototypeOf'', ''propertyIsEnumerable'',
      ''toLocaleString'', ''toString'', ''valueOf'', ''__proto__'', ''__defineGetter__'',
      ''__defineSetter__'', ''__lookupGetter__'', ''__lookupSetter__'']"

fun inherited :: "propkey \<Rightarrow> bool" where
  "inherited (Name s) = (s \<in> set inheritedNames)"
| "inherited (Numeric a) = False"

type_synonym form_history = "propkey \<Rightarrow> nat list option"

text \<open>\<open>history[team] || []\<close> for a key that is not inherited.\<close>

definition pastResults :: "form_history \<Rightarrow> propkey \<Rightarrow> nat list" where
  "pastResults history k = (case history k of None \<Rightarrow> [] | Some h \<Rightarrow> h)"

text \<open>\<open>h.slice(-5)\<close>.\<close>

definition lastFive :: "nat list \<Rightarrow> nat list" where
  "lastFive h = drop (length h - 5) h"

definition winRate :: "nat list \<Rightarrow> jsnum" where
  "winRate l =
     (if length l > 0 then jdiv (Num (real (foldl (\<lambda>a b. a + b) 0 l))) (Num (real (length l)))
      else Num 0.5)"

subsection \<open>The winner of a row\<close>

datatype cover = Home | Away | Push

definition checkSpreadWinner :: "jsval \<Rightarrow> jsval \<Rightarrow> jsval \<Rightarrow> cover option" where
  "checkSpreadWinner homeScore awayScore spreadLine =
     (let h = parseFloat homeScore;
          a = parseFloat awayScore;
          s = parseFloat spreadLine
      in if \<not> isFinite h \<or> \<not> isFinite a \<or> \<not> isFinite s then None
         else let adjustedHome = jadd h s
              in if jgt adjustedHome a then Some Home
                 else if jlt adjustedHome a then Some Away
                 else Some Push)"

text \<open>The third parameter defaults to \<open>null\<close> when the argument is \<open>undefined\<close>.\<close>

definition determineWinnerFromScores :: "jsval \<Rightarrow> jsval \<Rightarrow> jsval \<Rightarrow> jsval" where
  "determineWinnerFromScores homeScore awayScore spreadArg =
     (let spreadLine = (if spreadArg = JUndefined then JNull else spreadArg);
          h = parseFloat homeScore;
          a = parseFloat awayScore
      in if \<not> isFinite h \<or> \<not> isFinite a then JNull
         else if spreadLine \<noteq> JNull \<and> spreadLine \<noteq> JString [] \<and> isFinite (parseFloat spreadLine)
           then (case checkSpreadWinner homeScore awayScore spreadLine of
                   Some Home \<Rightarrow> JNumber (Num 1)
                 | Some Away \<Rightarrow> JNumber (Num 0)
                 | _ \<Rightarrow> JNull)
         else if jgt h a then JNumber (Num 1) else JNumber (Num 0))"

subsection \<open>The version of \<open>unnamed/part_002\<close>\<close>

definition team1Key :: "row \<Rightarrow> propkey" where
  "team1Key r = propertyKey (jor (r ''team1'') (r ''home_team''))"

definition team2Key :: "row \<Rightarrow> propkey" where
  "team2Key r = propertyKey (jor (r ''team2'') (r ''away_team''))"

definition rowWinner :: "row \<Rightarrow> jsval" where
  "rowWinner r =
     (if isBlank (r ''winner'')
      then determineWinnerFromScores (jor (r ''home_final_score'') (r ''HomeScore''))
             (jor (r ''away_final_score'') (r ''AwayScore'')) (r ''spread'')
      else r ''winner'')"

definition t1Result :: "row \<Rightarrow> nat" where
  "t1Result r = (if toNumber (rowWinner r) = Num 1 then 1 else 0)"

definition t2Result :: "row \<Rightarrow> nat" where
  "t2Result r = (if toNumber (rowWinner r) = Num 0 then 1 else 0)"

text \<open>
  The body of the \<open>rows.map\<close> callback: it reads the history, computes the two rates,
  and only then stores the row's own results.
\<close>

definition last5Step :: "form_history \<Rightarrow> row \<Rightarrow> js_error + (form_history \<times> row)" where
  "last5Step history r =
     (let team1 = team1Key r;
          team2 = team2Key r
      in if inherited team1 \<or> inherited team2 then Inl TypeError
         else
           let t1Hist = pastResults history team1;
               t2Hist = pastResults history team2;
               t1Rate = winRate (lastFive t1Hist);
               t2Rate = winRate (lastFive t2Hist);
               history1 = history(team1 \<mapsto> t1Hist @ [t1Result r]);
               history2 = history1(team2 \<mapsto> t2Hist @ [t2Result r])
           in Inr (history2,
                   r(''team1_last5'' := JNumber t1Rate, ''team2_last5'' := JNumber t2Rate,
                     ''winner'' := JNumber (toNumber (rowWinner r)))))"

text \<open>\<open>rows.map(callback)\<close>, the callback sharing the history object.\<close>

fun mapRows ::
  "(form_history \<Rightarrow> row \<Rightarrow> js_error + (form_history \<times> row)) \<Rightarrow> form_history \<Rightarrow> row list
     \<Rightarrow> js_error + row list" where
  "mapRows step history [] = Inr []"
| "mapRows step history (r # rs) =
     (case step history r of
        Inl e \<Rightarrow> Inl e
      | Inr (history1, out) \<Rightarrow>
          (case mapRows step history1 rs of
             Inl e \<Rightarrow> Inl e
           | Inr outs \<Rightarrow> Inr (out # outs)))"

definition addLast5WinColumns :: "row list \<Rightarrow> js_error + row list" where
  "addLast5WinColumns rows = mapRows last5Step Map.empty rows"

subsection \<open>The version of \<open>src/SportsPredictionModel.jsx\<close>\<close>

definition team1Key_jsx :: "row \<Rightarrow> propkey" where
  "team1Key_jsx r = propertyKey (r ''team1'')"

definition team2Key_jsx :: "row \<Rightarrow> propkey" where
  "team2Key_jsx r = propertyKey (r ''team2'')"

definition t1Result_jsx :: "row \<Rightarrow> nat" where
  "t1Result_jsx r = (if toNumber (r ''winner'') = Num 1 then 1 else 0)"

definition t2Result_jsx :: "row \<Rightarrow> nat" where
  "t2Result_jsx r = (if toNumber (r ''winner'') = Num 0 then 1 else 0)"

definition last5Step_jsx :: "form_history \<Rightarrow> row \<Rightarrow> js_error + (form_history \<times> row)" where
  "last5Step_jsx history r =
     (let team1 = team1Key_jsx r;
          team2 = team2Key_jsx r
      in if inherited team1 \<or> inherited team2 then Inl TypeError
         else
           let t1Hist = pastResults history team1;
               t2Hist = pastResults history team2;
               t1Rate = winRate (lastFive t1Hist);
               t2Rate = winRate (lastFive t2Hist);
               history1 = history(team1 \<mapsto> t1Hist @ [t1Result_jsx r]);
               history2 = history1(team2 \<mapsto> t2Hist @ [t2Result_jsx r])
           in Inr (history2,
                   r(''team1_last5'' :=
                       (if r ''team1_last5'' \<noteq> JUndefined
                        then JNumber (toNumber (r ''team1_last5'')) else JNumber t1Rate),
                     ''team2_last5'' :=
                       (if r ''team2_last5'' \<noteq> JUndefined
                        then JNumber (toNumber (r ''team2_last5'')) else JNumber t2Rate))))"

definition addLast5WinColumns_jsx :: "row list \<Rightarrow> js_error + row list" where
  "addLast5WinColumns_jsx rows = mapRows last5Step_jsx Map.empty rows"

subsection \<open>The outcomes recorded for a competitor\<close>

text \<open>
  What a list of rows leaves in the history under key \<open>k\<close>: each row of competitor
  \<open>k\<close> contributes one result, in order (a row whose two teams are the same key keeps
  the second assignment, the team-2 result).
\<close>

definition recorded ::
  "(row \<Rightarrow> propkey) \<Rightarrow> (row \<Rightarrow> propkey) \<Rightarrow> (row \<Rightarrow> nat) \<Rightarrow> (row \<Rightarrow> nat) \<Rightarrow> row list \<Rightarrow> propkey
     \<Rightarrow> nat list" where
  "recorded k1 k2 o1 o2 rows k =
     concat (map (\<lambda>r. if k2 r = k then [o2 r] else if k1 r = k then [o1 r] else []) rows)"

section \<open>The backtest simulator: \<open>runBacktest\<close>\<close>

text \<open>
  \<open>unnamed/part_002\<close>, lines 1695 to 1849. The state of the loop is the \<open>bets\<close>
  object (one record per market), the balance and the balance history.
\<close>

record market =
  bets :: nat
  correct :: nat
  profit :: jsnum
  evSum :: jsnum

record backtest_state =
  moneylineMarket :: market
  spreadMarket :: market
  totalMarket :: market
  balance :: jsnum
  balanceHistory :: "(nat \<times> jsnum) list"

record sport =
  supportsSpread :: bool
  supportsTotal :: bool

definition initialState :: backtest_state where
  "initialState =
     \<lparr>moneylineMarket = \<lparr>bets = 0, correct = 0, profit = Num 0, evSum = Num 0\<rparr>,
      spreadMarket = \<lparr>bets = 0, correct = 0, profit = Num 0, evSum = Num 0\<rparr>,
      totalMarket = \<lparr>bets = 0, correct = 0, profit = Num 0, evSum = Num 0\<rparr>,
      balance = Num 10000, balanceHistory = []\<rparr>"

text \<open>
  One entry of the feature vector of a row, with the flag the callback clears when the
  entry is unusable.
\<close>

definition backtestFeature :: "row \<Rightarrow> string \<Rightarrow> jsnum \<times> bool" where
  "backtestFeature current f =
     (if strIncludes ''moneyline'' f
      then let ml1 = parseFloat (jor (current ''team1_moneyline'') (current ''HomeMoneyline''));
               ml2 = parseFloat (jor (current ''team2_moneyline'') (current ''AwayMoneyline''));
               p1 = moneylineToFairProb (JNumber ml1);
               p2 = moneylineToFairProb (JNumber ml2);
               fair = removeVig p1 p2
           in (if f = ''team1_moneyline'' then fst fair else snd fair,
               jtruthy ml1 \<and> jtruthy ml2)
      else let val = parseFloat (current f)
           in (finiteOr (Num 0) val, isFinite val))"

text \<open>\<open>odds > 0 ? odds / 100 : 100 / Math.abs(odds)\<close>.\<close>

definition oddsReturn :: "jsnum \<Rightarrow> jsnum" where
  "oddsReturn odds =
     (if jgt odds (Num 0) then jdiv odds (Num 100) else jdiv (Num 100) (jabs odds))"

definition placeMoneyline :: "row \<Rightarrow> jsnum \<Rightarrow> backtest_state \<Rightarrow> backtest_state" where
  "placeMoneyline current modelProb s =
     (let actualWinner = toNumber (current ''winner'');
          ml1 = parseFloat (jor (current ''team1_moneyline'') (current ''HomeMoneyline''));
          ml2 = parseFloat (jor (current ''team2_moneyline'') (current ''AwayMoneyline''))
      in if jtruthy ml1 \<and> jtruthy ml2 \<and> ml1 \<noteq> Num 0 \<and> ml2 \<noteq> Num 0
         then let evResult = calculateEV modelProb ml1 ml2;
                  ev = bestEV evResult
              in if jgt ev (Num 2)
                 then let odds = (if side evResult = Team1 then ml1 else ml2);
                          won = ((side evResult = Team1 \<and> actualWinner = Num 1) \<or>
                                 (side evResult = Team2 \<and> actualWinner = Num 0));
                          payout = (if won then jmul (Num 100) (oddsReturn odds) else Num (- 100));
                          m = moneylineMarket s
                      in s\<lparr>moneylineMarket :=
                             \<lparr>bets = bets m + 1,
                              correct = (if won then correct m + 1 else correct m),
                              profit = jadd (profit m) payout,
                              evSum = jadd (evSum m) ev\<rparr>,
                           balance := jadd (balance s) payout\<rparr>
                 else s
         else s)"

definition placeSpread :: "sport \<Rightarrow> row \<Rightarrow> jsnum \<Rightarrow> backtest_state \<Rightarrow> backtest_state" where
  "placeSpread sp current modelProb s =
     (let actualWinner = toNumber (current ''winner'')
      in if supportsSpread sp \<and> truthy (current ''spread'') \<and> current ''spread'' \<noteq> JString []
         then let spreadLine = parseFloat (current ''spread'');
                  odds1 = jor (current ''spread_odds1'') (JNumber (Num (- 110)));
                  odds2 = jor (current ''spread_odds2'') (JNumber (Num (- 110)))
              in if jtruthy spreadLine \<and> truthy odds1 \<and> truthy odds2
                 then let evResult = calculateSpreadEV modelProb spreadLine (toNumber odds1)
                                       (toNumber odds2);
                          ev = bestEV evResult
                      in if jgt ev (Num 2)
                         then let won = (if side evResult = Team1 then actualWinner = Num 1
                                         else actualWinner = Num 0);
                                  payout = (if won
                                            then jsub (jmul (Num 100) (oddsReturn (toNumber odds1)))
                                                   (Num 100)
                                            else Num (- 100));
                                  m = spreadMarket s
                              in s\<lparr>spreadMarket :=
                                     \<lparr>bets = bets m + 1,
                                      correct = (if won then correct m + 1 else correct m),
                                      profit = jadd (profit m) payout,
                                      evSum = evSum m\<rparr>,
                                   balance := jadd (balance s) payout\<rparr>
                         else s
                 else s
         else s)"

text \<open>\<open>parseFloat(v) || 0\<close>.\<close>

definition orZero :: "jsnum \<Rightarrow> jsnum" where
  "orZero n = (if jtruthy n then n else Num 0)"

definition placeTotal :: "sport \<Rightarrow> row \<Rightarrow> jsnum \<Rightarrow> backtest_state \<Rightarrow> backtest_state" where
  "placeTotal sp current modelProb s =
     (if supportsTotal sp \<and> truthy (current ''total'')
      then let totalLine = parseFloat (current ''total'');
               overOdds = jor (current ''over_odds'') (JNumber (Num (- 110)));
               underOdds = jor (current ''under_odds'') (JNumber (Num (- 110)))
           in if jtruthy totalLine \<and> truthy overOdds \<and> truthy underOdds
              then let evResult = calculateTotalEV modelProb totalLine (toNumber overOdds)
                                    (toNumber underOdds);
                       ev = bestTotalEV evResult
                   in if jgt ev (Num 2)
                      then let actualTotal =
                                 jadd (orZero (parseFloat (jor (current ''home_final_score'')
                                                              (current ''HomeScore''))))
                                      (orZero (parseFloat (jor (current ''away_final_score'')
                                                              (current ''AwayScore''))));
                               won = (if totalSide evResult = Over then jgt actualTotal totalLine
                                      else jlt actualTotal totalLine);
                               payout = (if won
                                         then jsub (jmul (Num 100) (oddsReturn (toNumber overOdds)))
                                                (Num 100)
                                         else Num (- 100));
                               m = totalMarket s
                           in s\<lparr>totalMarket :=
                                  \<lparr>bets = bets m + 1,
                                   correct = (if won then correct m + 1 else correct m),
                                   profit = jadd (profit m) payout,
                                   evSum = evSum m\<rparr>,
                                balance := jadd (balance s) payout\<rparr>
                      else s
              else s
      else s)"

text \<open>The loop body for row \<open>i\<close>; a \<open>continue\<close> leaves the state as it is.\<close>

definition backtestStep :: "sport \<Rightarrow> model \<Rightarrow> backtest_state \<Rightarrow> nat \<times> row \<Rightarrow> backtest_state" where
  "backtestStep sp mdl s ir =
     (let i = fst ir;
          current = snd ir
      in if isBlank (current ''winner'') then s
         else let fs = map (backtestFeature current) (features mdl);
                  valid = list_all snd fs;
                  raw = map fst fs
              in if \<not> valid then s
                 else let xNorm = map (\<lambda>(j, v). jdiv (jsub v (nthOr (means mdl) j))
                                                     (nthOr (stds mdl) j))
                                      (zip [0..<length raw] raw);
                          z = linear (bias mdl) (weights mdl) xNorm;
                          modelProb = sigmoid z;
                          s1 = placeMoneyline current modelProb s;
                          s2 = placeSpread sp current modelProb s1;
                          s3 = placeTotal sp current modelProb s2
                      in s3\<lparr>balanceHistory := balanceHistory s3 @ [(i, balance s3)]\<rparr>)"

text \<open>\<open>for (let i = 20; i < sorted.length; i++)\<close> over the sortedRows rows.\<close>

definition backtestLoop :: "sport \<Rightarrow> model \<Rightarrow> row list \<Rightarrow> backtest_state" where
  "backtestLoop sp mdl sortedRows =
     foldl (backtestStep sp mdl) initialState (drop 20 (zip [0..<length sortedRows] sortedRows))"

datatype backtest_refusal = NeedModelAnd50Games

record backtest_result =
  marketBets :: "market \<times> market \<times> market"
  totalBets :: nat
  totalProfit :: jsnum
  roi :: jsnum
  finalBalance :: jsnum
  startingBalance :: jsnum
  history :: "(nat \<times> jsnum) list"
  gamesTested :: int

text \<open>
  The chronological sort compares dates built by the runtime from the rows' date fields;
  it is a parameter of the model. The model argument is \<open>None\<close> when no model has been
  trained.
\<close>

definition runBacktest ::
  "(row list \<Rightarrow> row list) \<Rightarrow> sport \<Rightarrow> model option \<Rightarrow> row list
     \<Rightarrow> backtest_refusal + backtest_result" where
  "runBacktest sortByDate sp modelParams trainingData =
     (case modelParams of
        None \<Rightarrow> Inl NeedModelAnd50Games
      | Some mdl \<Rightarrow>
          if length trainingData < 50 then Inl NeedModelAnd50Games
          else let sortedRows = sortByDate trainingData;
                   s = backtestLoop sp mdl sortedRows;
                   ms = [moneylineMarket s, spreadMarket s, totalMarket s];
                   nBets = foldl (\<lambda>n m. n + bets m) 0 ms;
                   sumProfit = foldl (\<lambda>t m. jadd t (profit m)) (Num 0) ms
               in Inr \<lparr>marketBets = (moneylineMarket s, spreadMarket s, totalMarket s),
                       totalBets = nBets,
                       totalProfit = toFixed2 sumProfit,
                       roi = (if nBets > 0
                              then toFixed2 (jmul (jdiv sumProfit (Num (real (nBets * 100))))
                                               (Num 100))
                              else Num 0),
                       finalBalance = toFixed2 (balance s),
                       startingBalance = Num 10000,
                       history = balanceHistory s,
                       gamesTested = int (length sortedRows) - 20\<rparr>)"

subsection \<open>The ledger of a run\<close>




section \<open>Example data\<close>

text \<open>
  The feature list and market flags of the NFL entry of the \<open>sports\<close> table, a row
  with no property, and the two form columns of a result.
\<close>

definition nflFeatures :: "string list" where
  "nflFeatures = [''team1_moneyline'', ''team2_moneyline'', ''team1_last5'', ''team2_last5'']"

definition nfl :: sport where
  "nfl = \<lparr>supportsSpread = True, supportsTotal = True\<rparr>"

definition emptyRow :: row where
  "emptyRow = (\<lambda>k. JUndefined)"

definition game :: "string \<Rightarrow> string \<Rightarrow> jsval \<Rightarrow> row" where
  "game t1 t2 w = emptyRow(''team1'' := JString t1, ''team2'' := JString t2, ''winner'' := w)"

definition formColumns :: "js_error + row list \<Rightarrow> (jsval \<times> jsval) list option" where
  "formColumns res =
     (case res of
        Inl e \<Rightarrow> None
      | Inr outs \<Rightarrow> Some (map (\<lambda>r. (r ''team1_last5'', r ''team2_last5'')) outs))"

text \<open>
  A game the home team won 24-21 as a 3-point favourite: with the spread the adjusted
  home score is 21, equal to the away score, a push.
\<close>

definition pushGame :: row where
  "pushGame =
     (game ''A'' ''B'' (JNumber (Num 1)))
       (''team1_moneyline'' := JNumber (Num (- 150)), ''team2_moneyline'' := JNumber (Num 130),
        ''team1_last5'' := JNumber (Num 0.5), ''team2_last5'' := JNumber (Num 0.5),
        ''spread'' := JNumber (Num (- 3)),
        ''home_final_score'' := JNumber (Num 24), ''away_final_score'' := JNumber (Num 21))"

text \<open>A model with zero weights and bias: it predicts 0.5 for every row.\<close>

definition flatModel :: model where
  "flatModel =
     \<lparr>weights = [Num 0, Num 0, Num 0, Num 0], bias = Num 0,
      means = [Num 0, Num 0, Num 0, Num 0], stds = [Num 1, Num 1, Num 1, Num 1],
      features = nflFeatures\<rparr>"

text \<open>A row with a winner label and a row whose winner cell is blank.\<close>

definition labelledGame :: row where
  "labelledGame =
     (game ''A'' ''B'' (JNumber (Num 1)))
       (''team1_moneyline'' := JNumber (Num (- 150)), ''team2_moneyline'' := JNumber (Num 130),
        ''team1_last5'' := JNumber (Num 0.6), ''team2_last5'' := JNumber (Num 0.4))"

definition unlabelledGame :: row where
  "unlabelledGame = labelledGame(''winner'' := JString [])"

text \<open>Three games of team A: a win over B, a loss to C, then B again.\<close>

definition threeGames :: "row list" where
  "threeGames =
     [game ''A'' ''B'' (JNumber (Num 1)), game ''A'' ''C'' (JNumber (Num 0)),
      game ''A'' ''B'' (JNumber (Num 1))]"

text \<open>A first game of team A whose row already carries a form value for team 1.\<close>

definition suppliedFormGame :: row where
  "suppliedFormGame = (game ''A'' ''B'' (JNumber (Num 1)))(''team1_last5'' := JNumber (Num 0.9))"





section \<open>Properties of the number model\<close>

lemma jmax_Num: "jmax (Num a) (Num b) = Num (max a b)"
  by (simp add: jmax_def max_def)

lemma jmin_Num: "jmin (Num a) (Num b) = Num (min a b)"
  by (simp add: jmin_def min_def)

lemma jsub_Num: "jsub (Num a) (Num b) = Num (a - b)"
  by (simp add: jsub_def)

section \<open>Rounding to doubles\<close>

lemma quantumSearch_numeral:
  "quantumSearch (numeral n) a q =
     (if q * 2 ^ 53 \<le> a then quantumSearch (pred_numeral n) a (2 * q)
      else if a < q * 2 ^ 52 \<and> 1 / 2 ^ 1074 < q then quantumSearch (pred_numeral n) a (q / 2)
      else q)"
  by (simp add: numeral_eq_Suc)

lemma roundEven_err: "\<bar>of_int (roundEven y) - y\<bar> \<le> 1 / 2"
  unfolding roundEven_def Let_def by (simp add: abs_if) linarith

lemma roundEven_int: "roundEven (of_int m) = m"
  by (simp add: roundEven_def)

lemma roundEven_ge: "of_int m \<le> y \<Longrightarrow> m \<le> roundEven y"
  unfolding roundEven_def Let_def by (simp add: le_floor_iff) linarith

lemma roundEven_le: "y \<le> of_int m \<Longrightarrow> roundEven y \<le> m"
  unfolding roundEven_def Let_def by (simp add: abs_if) linarith

lemma scaled_err:
  assumes "0 < q"
  shows "\<bar>of_int (roundEven (x / q)) * q - x\<bar> \<le> 1 / 2 * q"
proof -
  have "of_int (roundEven (x / q)) * q - x = (of_int (roundEven (x / q)) - x / q) * q"
    using assms by (simp add: left_diff_distrib)
  then have "\<bar>of_int (roundEven (x / q)) * q - x\<bar> = \<bar>of_int (roundEven (x / q)) - x / q\<bar> * q"
    using assms by (simp add: abs_mult)
  also have "\<dots> \<le> 1 / 2 * q"
    using roundEven_err [of "x / q"] assms by (intro mult_right_mono) simp_all
  finally show ?thesis .
qed

lemma quantumSearch_pos: "0 < q \<Longrightarrow> 0 < quantumSearch k a q"
  by (induction k arbitrary: q) simp_all

lemma quantumSearch_le: "0 < q \<Longrightarrow> a < q * 2 ^ 53 \<Longrightarrow> quantumSearch k a q \<le> q"
proof (induction k arbitrary: q)
  case 0
  show ?case by simp
next
  case (Suc k)
  show ?case
  proof (cases "a < q * 2 ^ 52 \<and> 1 / 2 ^ 1074 < q")
    case True
    have "quantumSearch k a (q / 2) \<le> q / 2"
      using Suc.prems True by (intro Suc.IH) simp_all
    then show ?thesis using Suc.prems True by simp
  next
    case False
    then show ?thesis using Suc.prems by auto
  qed
qed

lemma quantumSearch_up:
  "0 < q \<Longrightarrow> q * 2 ^ 52 \<le> a \<Longrightarrow> a < q * 2 ^ 53 * 2 ^ j \<Longrightarrow> j \<le> k \<Longrightarrow>
   quantumSearch k a q * 2 ^ 52 \<le> a \<and> a < quantumSearch k a q * 2 ^ 53"
proof (induction j arbitrary: q k)
  case 0
  then show ?case by (cases k) auto
next
  case (Suc j)
  then obtain k' where k: "k = Suc k'" by (cases k) auto
  show ?case
  proof (cases "q * 2 ^ 53 \<le> a")
    case True
    have "quantumSearch k' a (2 * q) * 2 ^ 52 \<le> a \<and> a < quantumSearch k' a (2 * q) * 2 ^ 53"
      using Suc.prems True k by (intro Suc.IH) simp_all
    then show ?thesis using True k by simp
  next
    case False
    then show ?thesis using Suc.prems k by auto
  qed
qed

lemma quantumSearch_down:
  "0 < q \<Longrightarrow> a < q * 2 ^ 53 \<Longrightarrow> q * 2 ^ 52 \<le> a * 2 ^ j \<Longrightarrow> j \<le> k \<Longrightarrow> 2 ^ j / 2 ^ 1074 \<le> q \<Longrightarrow>
   quantumSearch k a q * 2 ^ 52 \<le> a \<and> a < quantumSearch k a q * 2 ^ 53"
proof (induction j arbitrary: q k)
  case 0
  then show ?case by (cases k) auto
next
  case (Suc j)
  then obtain k' where k: "k = Suc k'" by (cases k) auto
  show ?case
  proof (cases "a < q * 2 ^ 52")
    case True
    have q: "1 / 2 ^ 1074 < q"
    proof -
      have "(1::real) \<le> 2 ^ j" by (rule one_le_power) simp
      then have "(1::real) < 2 ^ Suc j" unfolding power_Suc by linarith
      then have "(1::real) / 2 ^ 1074 < 2 ^ Suc j / 2 ^ 1074"
        by (rule divide_strict_right_mono) simp
      then show ?thesis using Suc.prems(5) by linarith
    qed
    have "quantumSearch k' a (q / 2) * 2 ^ 52 \<le> a \<and> a < quantumSearch k' a (q / 2) * 2 ^ 53"
      using Suc.prems True k by (intro Suc.IH) (simp_all add: field_simps)
    then show ?thesis using True k q Suc.prems(2) by simp
  next
    case False
    then show ?thesis using Suc.prems k by auto
  qed
qed

lemma quantum_pos: "0 < quantum x"
  unfolding quantum_def by (rule quantumSearch_pos) simp

lemma quantum_normal:
  assumes "1 / 2 ^ 1022 \<le> \<bar>x\<bar>" and "\<bar>x\<bar> < 2 ^ 1023"
  shows "quantum x * 2 ^ 52 \<le> \<bar>x\<bar> \<and> \<bar>x\<bar> < quantum x * 2 ^ 53"
proof (cases "1 \<le> \<bar>x\<bar>")
  case True
  have "\<bar>x\<bar> < 1 / 2 ^ 52 * 2 ^ 53 * 2 ^ 1022" using assms(2) by simp
  then show ?thesis
    unfolding quantum_def using True
    by (intro quantumSearch_up [where j = 1022]) simp_all
next
  case False
  have "1 / 2 ^ 52 * 2 ^ 52 \<le> \<bar>x\<bar> * 2 ^ 1022" using assms(1) by (simp add: field_simps)
  then show ?thesis
    unfolding quantum_def using False
    by (intro quantumSearch_down [where j = 1022]) simp_all
qed

lemma round64_rel:
  assumes "1 / 2 ^ 1022 \<le> \<bar>x\<bar>" and "\<bar>x\<bar> < 2 ^ 1023"
  shows "\<exists>r. round64 x = Num r \<and> \<bar>r - x\<bar> \<le> \<bar>x\<bar> / 2 ^ 53"
proof -
  let ?q = "quantum x"
  let ?r = "of_int (roundEven (x / ?q)) * ?q"
  have q: "0 < ?q" by (rule quantum_pos)
  have n: "?q * 2 ^ 52 \<le> \<bar>x\<bar>" using quantum_normal [OF assms] by simp
  have "\<bar>?r - x\<bar> \<le> 1 / 2 * ?q" using q by (rule scaled_err)
  also have "\<dots> \<le> \<bar>x\<bar> / 2 ^ 53" using n by simp
  finally have e: "\<bar>?r - x\<bar> \<le> \<bar>x\<bar> / 2 ^ 53" .
  have "\<bar>?r\<bar> \<le> \<bar>x\<bar> + \<bar>x\<bar> / 2 ^ 53" using e by linarith
  also have "\<dots> < 2 ^ 1023 + 2 ^ 1023 / 2 ^ 53" using assms(2) by (simp add: add_strict_mono divide_strict_right_mono)
  also have "\<dots> \<le> 2 ^ 1024" by simp
  finally have "\<not> 2 ^ 1024 \<le> \<bar>?r\<bar>" by simp
  then have "round64 x = Num ?r" by (simp add: round64_def Let_def)
  then show ?thesis using e by blast
qed

lemma round64_abs:
  assumes "\<bar>x\<bar> < 2"
  shows "\<exists>r. round64 x = Num r \<and> \<bar>r - x\<bar> \<le> 1 / 2 ^ 53"
proof -
  let ?q = "quantum x"
  let ?r = "of_int (roundEven (x / ?q)) * ?q"
  have q: "0 < ?q" by (rule quantum_pos)
  have n: "?q \<le> 1 / 2 ^ 52"
    unfolding quantum_def using assms by (intro quantumSearch_le) simp_all
  have "\<bar>?r - x\<bar> \<le> 1 / 2 * ?q" using q by (rule scaled_err)
  also have "\<dots> \<le> 1 / 2 ^ 53" using n by simp
  finally have e: "\<bar>?r - x\<bar> \<le> 1 / 2 ^ 53" .
  have "\<bar>?r\<bar> \<le> \<bar>x\<bar> + 1 / 2 ^ 53" using e by linarith
  also have "\<dots> < 2 ^ 1024" using assms by simp
  finally have "\<not> 2 ^ 1024 \<le> \<bar>?r\<bar>" by simp
  then have "round64 x = Num ?r" by (simp add: round64_def Let_def)
  then show ?thesis using e by blast
qed

lemma quantum_lt4:
  assumes "\<bar>x\<bar> < 4"
  shows "quantum x \<le> 1 / 2 ^ 51"
proof (cases "\<bar>x\<bar> < 2")
  case True
  have "quantum x \<le> 1 / 2 ^ 52"
    unfolding quantum_def using True by (intro quantumSearch_le) simp_all
  then show ?thesis by simp
next
  case False
  then have "quantum x = quantumSearch 2199 \<bar>x\<bar> (2 * (1 / 2 ^ 52))"
    by (simp add: quantum_def quantumSearch_numeral)
  also have "\<dots> \<le> 2 * (1 / 2 ^ 52)"
    using assms by (intro quantumSearch_le) simp_all
  finally show ?thesis by simp
qed

lemma round64_abs4:
  assumes "\<bar>x\<bar> < 4"
  shows "\<exists>r. round64 x = Num r \<and> \<bar>r - x\<bar> \<le> 1 / 2 ^ 52"
proof -
  let ?q = "quantum x"
  let ?r = "of_int (roundEven (x / ?q)) * ?q"
  have q: "0 < ?q" by (rule quantum_pos)
  have n: "?q \<le> 1 / 2 ^ 51" using assms by (rule quantum_lt4)
  have "\<bar>?r - x\<bar> \<le> 1 / 2 * ?q" using q by (rule scaled_err)
  also have "\<dots> \<le> 1 / 2 ^ 52" using n by simp
  finally have e: "\<bar>?r - x\<bar> \<le> 1 / 2 ^ 52" .
  have "\<bar>?r\<bar> \<le> \<bar>x\<bar> + 1 / 2 ^ 52" using e by linarith
  also have "\<dots> < 2 ^ 1024" using assms by simp
  finally have "\<not> 2 ^ 1024 \<le> \<bar>?r\<bar>" by simp
  then have "round64 x = Num ?r" by (simp add: round64_def Let_def)
  then show ?thesis using e by blast
qed

lemmas round64_eval = round64_def quantum_def quantumSearch_numeral roundEven_def Let_def

lemma double_10001: "round64 1.0001 = Num (4504049987333233 / 2 ^ 52)"
  by (simp add: round64_eval)

subsection \<open>Binades, relative error and the doubles next to 100\<close>

lemma quantum_64: "64 \<le> \<bar>x\<bar> \<Longrightarrow> \<bar>x\<bar> < 128 \<Longrightarrow> quantum x = 1 / 2 ^ 46"
  by (simp add: quantum_def quantumSearch_numeral)

lemma quantum_128: "128 \<le> x \<Longrightarrow> x < 256 \<Longrightarrow> quantum x = 1 / 2 ^ 45"
  by (simp add: quantum_def quantumSearch_numeral)

lemma quantum_half: "1 / 2 \<le> x \<Longrightarrow> x < 1 \<Longrightarrow> quantum x = 1 / 2 ^ 53"
  by (simp add: quantum_def quantumSearch_numeral)

lemma quantum_quarter: "1 / 4 \<le> x \<Longrightarrow> x < 1 / 2 \<Longrightarrow> quantum x = 1 / 2 ^ 54"
  by (simp add: quantum_def quantumSearch_numeral)

lemma round64_grid_abs:
  assumes "quantum x = 1 / 2 ^ k" and "\<bar>x\<bar> \<le> 1000"
  shows "round64 x = Num (of_int (roundEven (x * 2 ^ k)) / 2 ^ k)"
proof -
  let ?q = "(1::real) / 2 ^ k"
  have q: "0 < ?q" by simp
  have q1: "?q \<le> 1" by (simp add: divide_le_eq_1)
  have "\<bar>of_int (roundEven (x / ?q)) * ?q - x\<bar> \<le> 1 / 2 * ?q" using q by (rule scaled_err)
  then have "\<bar>of_int (roundEven (x / ?q)) * ?q\<bar> \<le> \<bar>x\<bar> + 1" using q1 by linarith
  also have "\<dots> < 2 ^ 1024" using assms(2) by simp
  finally have "\<not> 2 ^ 1024 \<le> \<bar>of_int (roundEven (x / ?q)) * ?q\<bar>" by simp
  then show ?thesis by (simp add: round64_def Let_def assms(1))
qed

lemma round64_grid:
  assumes "quantum x = 1 / 2 ^ k" and "0 \<le> x" and "x \<le> 1000"
  shows "round64 x = Num (of_int (roundEven (x * 2 ^ k)) / 2 ^ k)"
  using assms by (intro round64_grid_abs) simp_all

lemma round64_rel_pos:
  assumes "1 / 2 ^ 30 \<le> x" and "x \<le> 2 ^ 40"
  shows "\<exists>r. round64 x = Num r \<and> x * (1 - 1 / 2 ^ 53) \<le> r \<and> r \<le> x * (1 + 1 / 2 ^ 53)"
proof -
  have x: "0 < x" using assms(1) by (simp add: less_le_trans [of 0 "1 / 2 ^ 30"])
  have lo: "(1::real) / 2 ^ 1022 \<le> 1 / 2 ^ 30" by simp
  have hi: "(2::real) ^ 40 < 2 ^ 1023" by simp
  have "1 / 2 ^ 1022 \<le> \<bar>x\<bar>" "\<bar>x\<bar> < 2 ^ 1023" using assms x lo hi by linarith+
  then obtain r where r: "round64 x = Num r" and e: "\<bar>r - x\<bar> \<le> \<bar>x\<bar> / 2 ^ 53"
    using round64_rel by blast
  from e x have "\<bar>r - x\<bar> \<le> x / 2 ^ 53" by simp
  then have "x - x / 2 ^ 53 \<le> r \<and> r \<le> x + x / 2 ^ 53" by linarith
  then have "x * (1 - 1 / 2 ^ 53) \<le> r \<and> r \<le> x * (1 + 1 / 2 ^ 53)"
    by (simp add: algebra_simps)
  then show ?thesis using r by blast
qed

lemma round64_rel_neg:
  assumes "1 / 2 ^ 30 \<le> x" and "x \<le> 2 ^ 40"
  shows "\<exists>r. round64 (- x) = Num (- r) \<and> x * (1 - 1 / 2 ^ 53) \<le> r \<and> r \<le> x * (1 + 1 / 2 ^ 53)"
proof -
  have x: "0 < x" using assms(1) by (simp add: less_le_trans [of 0 "1 / 2 ^ 30"])
  have lo: "(1::real) / 2 ^ 1022 \<le> 1 / 2 ^ 30" by simp
  have hi: "(2::real) ^ 40 < 2 ^ 1023" by simp
  have "1 / 2 ^ 1022 \<le> \<bar>- x\<bar>" "\<bar>- x\<bar> < 2 ^ 1023" using assms x lo hi by linarith+
  then obtain r where r: "round64 (- x) = Num r" and e: "\<bar>r - (- x)\<bar> \<le> \<bar>- x\<bar> / 2 ^ 53"
    using round64_rel by blast
  from e x have "\<bar>r + x\<bar> \<le> x / 2 ^ 53" by simp
  then have "x - x / 2 ^ 53 \<le> - r \<and> - r \<le> x + x / 2 ^ 53" by linarith
  then have "x * (1 - 1 / 2 ^ 53) \<le> - r \<and> - r \<le> x * (1 + 1 / 2 ^ 53)"
    by (simp add: algebra_simps)
  moreover have "round64 (- x) = Num (- (- r))" using r by simp
  ultimately show ?thesis by blast
qed

lemma recip_le: "0 < x \<Longrightarrow> x \<le> y \<Longrightarrow> 1 / y \<le> 1 / (x::real)"
  by (simp add: frac_le)

lemma small30: "(1::real) / 2 ^ 30 \<le> 1 / 4"
  by simp

lemma big40: "(3000000000 :: real) \<le> 2 ^ 40"
  by simp

lemma round_half_near:
  assumes "\<bar>v - x\<bar> \<le> e" and "e < 1 / 2"
  shows "\<bar>of_int \<lfloor>v + 1 / 2\<rfloor> - x\<bar> \<le> 1 / 2 + e"
    and "x = of_int j \<Longrightarrow> \<lfloor>v + 1 / 2\<rfloor> = j"
proof -
  have "of_int \<lfloor>v + 1 / 2\<rfloor> \<le> v + 1 / 2" "v + 1 / 2 < of_int \<lfloor>v + 1 / 2\<rfloor> + 1"
    by linarith+
  then show "\<bar>of_int \<lfloor>v + 1 / 2\<rfloor> - x\<bar> \<le> 1 / 2 + e" using assms(1) by linarith
  show "\<lfloor>v + 1 / 2\<rfloor> = j" if "x = of_int j"
    by (rule floor_unique) (use assms that in linarith)+
qed

lemma double_grid_64:
  assumes "round64 x = Num x" and "64 \<le> \<bar>x\<bar>" and "\<bar>x\<bar> < 128"
  shows "\<exists>m::int. \<bar>x\<bar> * 2 ^ 46 = of_int m"
proof -
  have q: "quantum x = 1 / 2 ^ 46" using assms(2,3) by (rule quantum_64)
  have "round64 x = Num (of_int (roundEven (x * 2 ^ 46)) / 2 ^ 46)"
    by (rule round64_grid_abs [OF q]) (use assms(3) in simp)
  then have "x = of_int (roundEven (x * 2 ^ 46)) / 2 ^ 46" using assms(1) by simp
  then have "x * 2 ^ 46 = of_int (roundEven (x * 2 ^ 46))" by (simp add: field_simps)
  then have "\<bar>x\<bar> * 2 ^ 46 = of_int \<bar>roundEven (x * 2 ^ 46)\<bar>"
    by (simp add: abs_mult [symmetric] del: of_int_abs flip: of_int_abs)
  then show ?thesis by blast
qed

lemma doubles_above_100:
  assumes d: "round64 x = Num x"
  shows "100 < \<bar>x\<bar> \<Longrightarrow> 100 + 1 / 2 ^ 46 \<le> \<bar>x\<bar>"
    and "100 + 1 / 2 ^ 46 < \<bar>x\<bar> \<Longrightarrow> 100 + 1 / 2 ^ 45 \<le> \<bar>x\<bar>"
proof -
  have grid: "\<exists>m::int. \<bar>x\<bar> * 2 ^ 46 = of_int m" if "100 < \<bar>x\<bar>" "\<bar>x\<bar> < 128"
    using d that by (intro double_grid_64) simp_all
  show "100 + 1 / 2 ^ 46 \<le> \<bar>x\<bar>" if x: "100 < \<bar>x\<bar>"
  proof (cases "\<bar>x\<bar> < 128")
    case True
    then obtain m :: int where m: "\<bar>x\<bar> * 2 ^ 46 = of_int m" using grid x by blast
    have "of_int (100 * 2 ^ 46) < (of_int m :: real)" using x m [symmetric] by simp
    then have "100 * 2 ^ 46 < m" by (simp only: of_int_less_iff)
    then have "100 * 2 ^ 46 + 1 \<le> m" by simp
    then have "(of_int (100 * 2 ^ 46 + 1) :: real) \<le> of_int m" by (simp only: of_int_le_iff)
    then show ?thesis unfolding m [symmetric] by (simp add: field_simps)
  next
    case False
    then show ?thesis by simp
  qed
  show "100 + 1 / 2 ^ 45 \<le> \<bar>x\<bar>" if x: "100 + 1 / 2 ^ 46 < \<bar>x\<bar>"
  proof (cases "\<bar>x\<bar> < 128")
    case True
    have "100 < \<bar>x\<bar>" using x by (simp add: less_trans [of 100 "100 + 1 / 2 ^ 46"])
    then obtain m :: int where m: "\<bar>x\<bar> * 2 ^ 46 = of_int m" using grid True by blast
    have "of_int (100 * 2 ^ 46 + 1) < (of_int m :: real)" using x m [symmetric] by (simp add: field_simps)
    then have "100 * 2 ^ 46 + 1 < m" by (simp only: of_int_less_iff)
    then have "100 * 2 ^ 46 + 2 \<le> m" by simp
    then have "(of_int (100 * 2 ^ 46 + 2) :: real) \<le> of_int m" by (simp only: of_int_le_iff)
    then show ?thesis unfolding m [symmetric] by (simp add: field_simps)
  next
    case False
    then show ?thesis by simp
  qed
qed

section \<open>Odds conversion: moneyline to probability\<close>

lemma stringToNumber_examples:
  "stringToNumber ''abc'' = NaN" "stringToNumber [] = Num 0"
  "stringToNumber ''1e309'' = PosInf" "stringToNumber ''1e-400'' = Num 0"
  "stringToNumber ''-150'' = Num (- 150)"
  by (simp_all add: stringToNumber_def trim_def isWhite_def strDecimalPrefix_def takeSign_def
      takeFraction_def takeExponent_def isDigit_def digitsValue_def scale10_def
      literalValue_def Let_def)

lemma moneylineToFairProb_pos:
  "0 < x \<Longrightarrow> moneylineToFairProb (JNumber (Num x)) = Num (100 / (x + 100))"
  by (simp add: moneylineToFairProb_def jgt_def)

lemma moneylineToFairProb_nonpos:
  "x \<le> 0 \<Longrightarrow> moneylineToFairProb (JNumber (Num x)) = Num (\<bar>x\<bar> / (\<bar>x\<bar> + 100))"
  by (simp add: moneylineToFairProb_def jgt_def)

text \<open>
  C3 (the code at the failing input). The claim has \<open>moneylineToFairProb\<close> return the
  neutral 0.5 for a moneyline of exactly zero. The function tests \<open>Number.isFinite\<close>
  only: zero, and the blank cell and \<open>null\<close> that \<open>Number\<close> reads as zero, fall into
  the branch of the negative lines and give \<open>0 / (0 + 100) = 0\<close>. A missing value, a
  text that is no number, an infinity and a numeral too large for a double do give 0.5.
\<close>

theorem moneylineToFairProb_zero_gives_zero:
  "moneylineToFairProb (JNumber (Num 0)) = Num 0 \<and>
   moneylineToFairProb (JString []) = Num 0 \<and>
   moneylineToFairProb JNull = Num 0 \<and>
   moneylineToFairProb (JNumber (Num 0)) \<noteq> Num 0.5 \<and>
   moneylineToFairProb JUndefined = Num 0.5 \<and>
   moneylineToFairProb (JString ''abc'') = Num 0.5 \<and>
   moneylineToFairProb (JNumber NaN) = Num 0.5 \<and>
   moneylineToFairProb (JNumber PosInf) = Num 0.5 \<and>
   moneylineToFairProb (JNumber NegInf) = Num 0.5 \<and>
   moneylineToFairProb (JString ''1e309'') = Num 0.5"
  by (simp add: moneylineToFairProb_def jgt_def stringToNumber_examples)

section \<open>Odds conversion: removing the vig\<close>

text \<open>
  C4 (as amended). For probabilities \<open>p1\<close>, \<open>p2\<close> (numbers from 0 to 1), with \<open>t\<close> the
  double that \<open>p1 + p2\<close> rounds to: when \<open>t\<close> is at most the double \<open>1.0001\<close>, in
  particular whenever \<open>p1 + p2 \<le> 1\<close>, \<open>removeVig\<close> returns its inputs unchanged;
  otherwise it returns the doubles nearest to \<open>p1 / t\<close> and \<open>p2 / t\<close>. Each of them is
  within \<open>2^-53\<close> of its quotient, so the ratio \<open>p1 : p2\<close> is kept up to rounding, and
  their sum is within \<open>2^-51\<close> of 1.
\<close>

theorem removeVig64_spec:
  assumes "0 \<le> p1" and "p1 \<le> 1" and "0 \<le> p2" and "p2 \<le> 1"
  shows "\<exists>t. dadd (Num p1) (Num p2) = Num t \<and> \<bar>t - (p1 + p2)\<bar> \<le> 1 / 2 ^ 52 \<and>
           (p1 + p2 \<le> 1 \<longrightarrow> jle (Num t) (round64 1.0001)) \<and>
           (jle (Num t) (round64 1.0001) \<longrightarrow>
              removeVig64 (Num p1) (Num p2) = (Num p1, Num p2)) \<and>
           (\<not> jle (Num t) (round64 1.0001) \<longrightarrow>
              (\<exists>q1 q2. removeVig64 (Num p1) (Num p2) = (Num q1, Num q2) \<and>
                 ddiv (Num p1) (Num t) = Num q1 \<and> ddiv (Num p2) (Num t) = Num q2 \<and>
                 \<bar>q1 - p1 / t\<bar> \<le> 1 / 2 ^ 53 \<and> \<bar>q2 - p2 / t\<bar> \<le> 1 / 2 ^ 53 \<and>
                 \<bar>q1 + q2 - 1\<bar> \<le> 1 / 2 ^ 51))"
proof -
  have "\<bar>p1 + p2\<bar> < 4" using assms by simp
  then obtain t where t: "round64 (p1 + p2) = Num t" and te: "\<bar>t - (p1 + p2)\<bar> \<le> 1 / 2 ^ 52"
    using round64_abs4 by blast
  have d: "dadd (Num p1) (Num p2) = Num t" by (simp add: dadd_def t)
  have small: "jle (Num t) (round64 1.0001)" if "p1 + p2 \<le> 1"
  proof -
    have "t \<le> 1 + 1 / 2 ^ 52" using te that by linarith
    then show ?thesis unfolding double_10001 by (simp add: jle_def)
  qed
  have same: "removeVig64 (Num p1) (Num p2) = (Num p1, Num p2)" if "jle (Num t) (round64 1.0001)"
    using that by (simp add: removeVig64_def d)
  have scaled: "\<exists>q1 q2. removeVig64 (Num p1) (Num p2) = (Num q1, Num q2) \<and>
                 ddiv (Num p1) (Num t) = Num q1 \<and> ddiv (Num p2) (Num t) = Num q2 \<and>
                 \<bar>q1 - p1 / t\<bar> \<le> 1 / 2 ^ 53 \<and> \<bar>q2 - p2 / t\<bar> \<le> 1 / 2 ^ 53 \<and>
                 \<bar>q1 + q2 - 1\<bar> \<le> 1 / 2 ^ 51"
    if big: "\<not> jle (Num t) (round64 1.0001)"
  proof -
    have t1: "1 < t" using big unfolding double_10001 by (simp add: jle_def)
    have "\<bar>p1 / t\<bar> < 2" using assms t1 by (simp add: abs_if field_simps)
    then obtain q1 where q1: "round64 (p1 / t) = Num q1" and e1: "\<bar>q1 - p1 / t\<bar> \<le> 1 / 2 ^ 53"
      using round64_abs by blast
    have "\<bar>p2 / t\<bar> < 2" using assms t1 by (simp add: abs_if field_simps)
    then obtain q2 where q2: "round64 (p2 / t) = Num q2" and e2: "\<bar>q2 - p2 / t\<bar> \<le> 1 / 2 ^ 53"
      using round64_abs by blast
    have d1: "ddiv (Num p1) (Num t) = Num q1" and d2: "ddiv (Num p2) (Num t) = Num q2"
      using t1 by (simp_all add: ddiv_def q1 q2)
    have r: "removeVig64 (Num p1) (Num p2) = (Num q1, Num q2)"
      using big by (simp add: removeVig64_def d d1 d2)
    have "\<bar>(p1 + p2 - t) / t\<bar> = \<bar>p1 + p2 - t\<bar> / t" using t1 by simp
    also have "\<dots> \<le> \<bar>p1 + p2 - t\<bar> / 1" using t1 by (intro divide_left_mono) simp_all
    finally have "\<bar>(p1 + p2 - t) / t\<bar> \<le> \<bar>p1 + p2 - t\<bar>" by simp
    then have e3: "\<bar>(p1 + p2 - t) / t\<bar> \<le> 1 / 2 ^ 52" using te by linarith
    have "q1 + q2 - 1 = (q1 - p1 / t) + (q2 - p2 / t) + (p1 + p2 - t) / t"
      using t1 by (simp add: field_simps)
    then have "\<bar>q1 + q2 - 1\<bar> \<le> 1 / 2 ^ 53 + 1 / 2 ^ 53 + 1 / 2 ^ 52"
      using e1 e2 e3 by linarith
    then have "\<bar>q1 + q2 - 1\<bar> \<le> 1 / 2 ^ 51" by simp
    then show ?thesis using r d1 d2 e1 e2 by blast
  qed
  show ?thesis using d te small same scaled by blast
qed

theorem removeVig64_spec_witness:
  "removeVig64 (Num 0.5) (Num 0.5) = (Num 0.5, Num 0.5) \<and>
   (\<exists>q1 q2. removeVig64 (Num 0.75) (Num 0.5) = (Num q1, Num q2) \<and>
      \<bar>q1 - 0.75 / 1.25\<bar> \<le> 1 / 2 ^ 53 \<and> \<bar>q2 - 0.5 / 1.25\<bar> \<le> 1 / 2 ^ 53 \<and>
      \<bar>q1 + q2 - 1\<bar> \<le> 1 / 2 ^ 51)"
proof -
  have a: "removeVig64 (Num 0.5) (Num 0.5) = (Num 0.5, Num 0.5)"
    using removeVig64_spec [of "0.5" "0.5"] by auto
  have t: "dadd (Num 0.75) (Num 0.5) = Num 1.25"
    by (simp add: dadd_def round64_eval)
  have big: "\<not> jle (Num 1.25) (round64 1.0001)"
    unfolding double_10001 by (simp add: jle_def)
  obtain s where s: "dadd (Num 0.75) (Num 0.5) = Num s"
    and r: "\<not> jle (Num s) (round64 1.0001) \<longrightarrow>
      (\<exists>q1 q2. removeVig64 (Num 0.75) (Num 0.5) = (Num q1, Num q2) \<and>
         ddiv (Num 0.75) (Num s) = Num q1 \<and> ddiv (Num 0.5) (Num s) = Num q2 \<and>
         \<bar>q1 - 0.75 / s\<bar> \<le> 1 / 2 ^ 53 \<and> \<bar>q2 - 0.5 / s\<bar> \<le> 1 / 2 ^ 53 \<and>
         \<bar>q1 + q2 - 1\<bar> \<le> 1 / 2 ^ 51)"
    using removeVig64_spec [of "0.75" "0.5"] by auto
  have "s = 1.25" using s t by simp
  then have b: "\<exists>q1 q2. removeVig64 (Num 0.75) (Num 0.5) = (Num q1, Num q2) \<and>
      \<bar>q1 - 0.75 / 1.25\<bar> \<le> 1 / 2 ^ 53 \<and> \<bar>q2 - 0.5 / 1.25\<bar> \<le> 1 / 2 ^ 53 \<and>
      \<bar>q1 + q2 - 1\<bar> \<le> 1 / 2 ^ 51"
    using r big by blast
  show ?thesis using a b by blast
qed

text \<open>
  The lines -150 and -120 have the fair probabilities 0.6 and 0.5454545454545454 (as
  doubles); \<open>removeVig\<close> returns 0.5238095238095237 and 0.4761904761904761. Their
  exact sum is \<open>1 - 3 * 2^-54\<close>, and added as doubles they give 0.9999999999999998,
  not 1.
\<close>

theorem removeVig64_sum_counterexample:
  "removeVig64 (moneylineToFairProb64 (JNumber (Num (- 150))))
               (moneylineToFairProb64 (JNumber (Num (- 120)))) =
     (Num (294878547030211 / 2 ^ 49), Num (8578285004515229 / 2 ^ 54)) \<and>
   (294878547030211 / 2 ^ 49 + 8578285004515229 / 2 ^ 54 :: real) = 1 - 3 / 2 ^ 54 \<and>
   dadd (Num (294878547030211 / 2 ^ 49)) (Num (8578285004515229 / 2 ^ 54)) = Num (1 - 1 / 2 ^ 52) \<and>
   dadd (Num (294878547030211 / 2 ^ 49)) (Num (8578285004515229 / 2 ^ 54)) \<noteq> Num 1"
  by (simp add: moneylineToFairProb64_def removeVig64_def jgt_def jle_def dadd_def ddiv_def
      round64_eval)

section \<open>Odds conversion: the round trip\<close>

text \<open>
  The error analysis of the two branches, with \<open>u = 2^-53\<close>: each rounded operation
  returns its exact result times a factor between \<open>1 - u\<close> and \<open>1 + u\<close>. For an underdog
  line \<open>s - 100\<close> the value handed to \<open>Math.round\<close> is within \<open>10^-6\<close> of the line; for a
  favourite line \<open>-n\<close> it is within \<open>1/40\<close>, the subtraction \<open>1 - p\<close> magnifying the
  error of \<open>p\<close> by \<open>n / 100\<close>.
\<close>

lemma dog_analysis:
  fixes s a p c r v u :: real
  assumes s: "200 < s" "s \<le> 10 ^ 8 + 100"
    and a: "s * (1 - u) \<le> a" "a \<le> s * (1 + u)"
    and p: "100 / a * (1 - u) \<le> p" "p \<le> 100 / a * (1 + u)" "p < 1 / 2"
    and c: "(1 - p) * (1 - u) \<le> c" "c \<le> (1 - p) * (1 + u)"
    and r: "c / p * (1 - u) \<le> r" "r \<le> c / p * (1 + u)"
    and v: "r * 100 * (1 - u) \<le> v" "v \<le> r * 100 * (1 + u)"
    and u: "u = 1 / 2 ^ 53"
  shows "\<bar>v - (s - 100)\<bar> \<le> 1 / 10 ^ 6"
proof -
  have u0: "0 < u" "u < 1" "0 < 1 - u" "0 < 1 + u" by (simp_all add: u)
  have "0 < s * (1 - u)" using s u0 by simp
  then have a0: "0 < a" using a(1) by linarith
  have "0 < 100 / a * (1 - u)" using a0 u0 by simp
  then have p0: "0 < p" using p(1) by linarith
  define t where "t = 1 / p"
  have t0: "0 < t" using p0 by (simp add: t_def)
  have t2: "2 < t" using p0 p(3) by (simp add: t_def field_simps)
  have pt: "(1 - p) * t = t - 1" using p0 by (simp add: t_def field_simps)
  have ct: "c / p = c * t" by (simp add: t_def)
  have tu: "t \<le> a / (100 * (1 - u))"
  proof -
    have "1 / p \<le> 1 / (100 / a * (1 - u))"
      using \<open>0 < 100 / a * (1 - u)\<close> p(1) by (rule recip_le)
    then show ?thesis using a0 u0 by (simp add: t_def)
  qed
  have tl: "a / (100 * (1 + u)) \<le> t"
  proof -
    have "1 / (100 / a * (1 + u)) \<le> 1 / p"
      using p0 p(2) by (rule recip_le)
    then show ?thesis using a0 u0 by (simp add: t_def)
  qed
  have au: "a / (100 * (1 - u)) \<le> s * (1 + u) / (100 * (1 - u))"
    using a(2) u0 by (intro divide_right_mono) simp_all
  have al: "s * (1 - u) / (100 * (1 + u)) \<le> a / (100 * (1 + u))"
    using a(1) u0 by (intro divide_right_mono) simp_all
  have ru: "r \<le> (t - 1) * (1 + u)\<^sup>2"
  proof -
    have "r \<le> c * t * (1 + u)" using r(2) ct by simp
    also have "\<dots> \<le> ((1 - p) * (1 + u)) * t * (1 + u)"
      using c(2) t0 u0 by (intro mult_right_mono) simp_all
    also have "\<dots> = ((1 - p) * t) * (1 + u)\<^sup>2" by (simp add: power2_eq_square)
    finally show ?thesis unfolding pt .
  qed
  have rl: "(t - 1) * (1 - u)\<^sup>2 \<le> r"
  proof -
    have "((1 - p) * t) * (1 - u)\<^sup>2 = ((1 - p) * (1 - u)) * t * (1 - u)"
      by (simp add: power2_eq_square)
    also have "\<dots> \<le> c * t * (1 - u)"
      using c(1) t0 u0 by (intro mult_right_mono) simp_all
    also have "\<dots> \<le> r" using r(1) ct by simp
    finally show ?thesis unfolding pt .
  qed
  have vu: "v \<le> (s * (1 + u) / (100 * (1 - u)) - 1) * (1 + u)\<^sup>2 * 100 * (1 + u)"
  proof -
    have "v \<le> r * 100 * (1 + u)" by fact
    also have "\<dots> \<le> ((t - 1) * (1 + u)\<^sup>2) * 100 * (1 + u)"
      using ru u0 by (intro mult_right_mono) simp_all
    also have "\<dots> \<le> ((s * (1 + u) / (100 * (1 - u)) - 1) * (1 + u)\<^sup>2) * 100 * (1 + u)"
      using tu au u0 by (intro mult_right_mono) simp_all
    finally show ?thesis .
  qed
  have vl: "(s * (1 - u) / (100 * (1 + u)) - 1) * (1 - u)\<^sup>2 * 100 * (1 - u) \<le> v"
  proof -
    have "((s * (1 - u) / (100 * (1 + u)) - 1) * (1 - u)\<^sup>2) * 100 * (1 - u) \<le>
          ((t - 1) * (1 - u)\<^sup>2) * 100 * (1 - u)"
      using tl al u0 by (intro mult_right_mono) simp_all
    also have "\<dots> \<le> r * 100 * (1 - u)"
      using rl u0 by (intro mult_right_mono) simp_all
    also have "\<dots> \<le> v" by fact
    finally show ?thesis .
  qed
  have 1: "v - (s - 100) \<le> 1 / 10 ^ 6" using vu s unfolding u
    by (simp add: algebra_simps power2_eq_square)
  have 2: "(s - 100) - v \<le> 1 / 10 ^ 6" using vl s unfolding u
    by (simp add: algebra_simps power2_eq_square)
  show ?thesis using 1 2 by linarith
qed

lemma fav_analysis:
  fixes n a p c r v u :: real
  assumes n: "100 \<le> n" "n \<le> 10 ^ 8"
    and a: "(n + 100) * (1 - u) \<le> a" "a \<le> (n + 100) * (1 + u)"
    and p: "n / a * (1 - u) \<le> p" "p \<le> n / a * (1 + u)" "p < 1"
    and c: "(1 - p) * (1 - u) \<le> c" "c \<le> (1 - p) * (1 + u)"
    and r: "p / c * (1 - u) \<le> r" "r \<le> p / c * (1 + u)"
    and v: "r * 100 * (1 - u) \<le> v" "v \<le> r * 100 * (1 + u)"
    and u: "u = 1 / 2 ^ 53"
  shows "\<bar>v - n\<bar> \<le> 1 / 40"
proof -
  have u0: "0 < u" "u < 1" "0 < 1 - u" "0 < 1 + u" by (simp_all add: u)
  have n0: "0 < n" using n by simp
  have "0 < (n + 100) * (1 - u)" using n0 u0 by simp
  then have a0: "0 < a" using a(1) by linarith
  have "0 < n / a * (1 - u)" using a0 n0 u0 by simp
  then have p0: "0 < p" using p(1) by linarith
  have q0: "0 < 1 - p" using p(3) by simp
  have qu: "0 < (1 - p) * (1 - u)" using q0 u0 by simp
  then have c0: "0 < c" using c(1) by linarith
  define t where "t = 1 / p"
  define w where "w = p / (1 - p)"
  define lo where "lo = 100 * (1 - u) - 2 * 10 ^ 8 * u"
  define hi where "hi = 100 * (1 + u) + 2 * 10 ^ 8 * u"
  have lo0: "0 < lo" by (simp add: lo_def u)
  have hi0: "0 < hi" by (simp add: hi_def u)
  have t1: "0 < t - 1" using p0 p(3) by (simp add: t_def field_simps)
  have w_eq: "w = 1 / (t - 1)" using p0 q0 by (simp add: w_def t_def field_simps)
  have nu0: "0 < n * (1 + u)" "0 < n * (1 - u)" using n0 u0 by simp_all
  have tl: "a / (n * (1 + u)) \<le> t"
  proof -
    have "0 < n / a * (1 + u)" using a0 n0 u0 by simp
    have "1 / (n / a * (1 + u)) \<le> 1 / p" using p0 p(2) by (rule recip_le)
    then show ?thesis using a0 n0 u0 by (simp add: t_def)
  qed
  have tu: "t \<le> a / (n * (1 - u))"
  proof -
    have "1 / p \<le> 1 / (n / a * (1 - u))"
      using \<open>0 < n / a * (1 - u)\<close> p(1) by (rule recip_le)
    then show ?thesis using a0 n0 u0 by (simp add: t_def)
  qed
  have wu: "w \<le> n * (1 + u) / lo"
  proof -
    have "lo + n * (1 + u) \<le> a"
      using a(1) n unfolding lo_def u by (simp add: algebra_simps)
    then have "(lo + n * (1 + u)) / (n * (1 + u)) \<le> a / (n * (1 + u))"
      using nu0 by (intro divide_right_mono) simp_all
    moreover have "(lo + n * (1 + u)) / (n * (1 + u)) = lo / (n * (1 + u)) + 1"
      using n0 u0 by (simp add: add_divide_distrib)
    ultimately have m: "lo / (n * (1 + u)) \<le> t - 1" using tl by linarith
    have "0 < lo / (n * (1 + u))" using lo0 nu0 by simp
    then have "1 / (t - 1) \<le> 1 / (lo / (n * (1 + u)))" using m by (rule recip_le)
    then show ?thesis by (simp add: w_eq)
  qed
  have wl: "n * (1 - u) / hi \<le> w"
  proof -
    have "a \<le> hi + n * (1 - u)"
      using a(2) n unfolding hi_def u by (simp add: algebra_simps)
    then have "a / (n * (1 - u)) \<le> (hi + n * (1 - u)) / (n * (1 - u))"
      using nu0 by (intro divide_right_mono) simp_all
    moreover have "(hi + n * (1 - u)) / (n * (1 - u)) = hi / (n * (1 - u)) + 1"
      using n0 u0 by (simp add: add_divide_distrib)
    ultimately have m: "t - 1 \<le> hi / (n * (1 - u))" using tu by linarith
    have "1 / (hi / (n * (1 - u))) \<le> 1 / (t - 1)" using t1 m by (rule recip_le)
    then show ?thesis by (simp add: w_eq)
  qed
  have pcu: "p / c \<le> w / (1 - u)"
  proof -
    have "1 / c \<le> 1 / ((1 - p) * (1 - u))" using qu c(1) by (rule recip_le)
    then have "p * (1 / c) \<le> p * (1 / ((1 - p) * (1 - u)))"
      using p0 by (intro mult_left_mono) simp_all
    then show ?thesis by (simp add: w_def)
  qed
  have pcl: "w / (1 + u) \<le> p / c"
  proof -
    have "1 / ((1 - p) * (1 + u)) \<le> 1 / c" using c0 c(2) by (rule recip_le)
    then have "p * (1 / ((1 - p) * (1 + u))) \<le> p * (1 / c)"
      using p0 by (intro mult_left_mono) simp_all
    then show ?thesis by (simp add: w_def)
  qed
  have vu: "v \<le> n * (1 + u) / lo / (1 - u) * (1 + u) * 100 * (1 + u)"
  proof -
    have "v \<le> r * 100 * (1 + u)" by fact
    also have "\<dots> \<le> (p / c * (1 + u)) * 100 * (1 + u)"
      using r(2) u0 by (intro mult_right_mono) simp_all
    also have "\<dots> \<le> (w / (1 - u) * (1 + u)) * 100 * (1 + u)"
      using pcu u0 by (intro mult_right_mono) simp_all
    also have "\<dots> \<le> (n * (1 + u) / lo / (1 - u) * (1 + u)) * 100 * (1 + u)"
      using wu u0 by (intro mult_right_mono divide_right_mono) simp_all
    finally show ?thesis .
  qed
  have vl: "n * (1 - u) / hi / (1 + u) * (1 - u) * 100 * (1 - u) \<le> v"
  proof -
    have "(n * (1 - u) / hi / (1 + u) * (1 - u)) * 100 * (1 - u) \<le>
          (w / (1 + u) * (1 - u)) * 100 * (1 - u)"
      using wl u0 by (intro mult_right_mono divide_right_mono) simp_all
    also have "\<dots> \<le> (p / c * (1 - u)) * 100 * (1 - u)"
      using pcl u0 by (intro mult_right_mono) simp_all
    also have "\<dots> \<le> r * 100 * (1 - u)"
      using r(1) u0 by (intro mult_right_mono) simp_all
    also have "\<dots> \<le> v" by fact
    finally show ?thesis .
  qed
  have 1: "v - n \<le> 1 / 40" using vu n unfolding u lo_def
    by (simp add: algebra_simps)
  have 2: "n - v \<le> 1 / 40" using vl n unfolding u hi_def
    by (simp add: algebra_simps)
  show ?thesis using 1 2 by linarith
qed

lemma dog_branch:
  assumes ml: "100 + 1 / 2 ^ 45 \<le> ml" "ml \<le> 10 ^ 8"
    and a: "round64 (ml + 100) = Num a"
    and p: "round64 (100 / a) = Num p"
  shows "p < 1 / 2"
proof (cases "ml + 100 < 256")
  case True
  have q: "quantum (ml + 100) = 1 / 2 ^ 45" using ml True by (intro quantum_128) simp_all
  have "round64 (ml + 100) = Num (of_int (roundEven ((ml + 100) * 2 ^ 45)) / 2 ^ 45)"
    by (rule round64_grid [OF q]) (use ml True in simp_all)
  then have a_eq: "a = of_int (roundEven ((ml + 100) * 2 ^ 45)) / 2 ^ 45" using a by simp
  have "of_int (200 * 2 ^ 45 + 1) \<le> (ml + 100) * 2 ^ 45" using ml(1) by (simp add: field_simps)
  then have "200 * 2 ^ 45 + 1 \<le> roundEven ((ml + 100) * 2 ^ 45)" by (rule roundEven_ge)
  then have "(of_int (200 * 2 ^ 45 + 1) :: real) \<le> of_int (roundEven ((ml + 100) * 2 ^ 45))"
    by (simp only: of_int_le_iff)
  then have al: "200 + 1 / 2 ^ 45 \<le> a" unfolding a_eq by (simp add: field_simps)
  have "(ml + 100) * 2 ^ 45 \<le> of_int (256 * 2 ^ 45)" using True by simp
  then have "roundEven ((ml + 100) * 2 ^ 45) \<le> 256 * 2 ^ 45" by (rule roundEven_le)
  then have "(of_int (roundEven ((ml + 100) * 2 ^ 45)) :: real) \<le> of_int (256 * 2 ^ 45)"
    by (simp only: of_int_le_iff)
  then have au: "a \<le> 256" unfolding a_eq by (simp add: field_simps)
  have x: "1 / 4 \<le> 100 / a" "100 / a < 1 / 2" using al au by (simp_all add: field_simps)
  have q2: "quantum (100 / a) = 1 / 2 ^ 54" using x by (intro quantum_quarter) simp_all
  have "round64 (100 / a) = Num (of_int (roundEven (100 / a * 2 ^ 54)) / 2 ^ 54)"
    by (rule round64_grid [OF q2]) (use x in linarith)+
  then have p_eq: "p = of_int (roundEven (100 / a * 2 ^ 54)) / 2 ^ 54" using p by simp
  have "100 / a * 2 ^ 54 \<le> of_int (2 ^ 53 - 1)" using al by (simp add: field_simps)
  then have "roundEven (100 / a * 2 ^ 54) \<le> 2 ^ 53 - 1" by (rule roundEven_le)
  then have "(of_int (roundEven (100 / a * 2 ^ 54)) :: real) \<le> of_int (2 ^ 53 - 1)"
    by (simp only: of_int_le_iff)
  then show ?thesis unfolding p_eq by (simp add: field_simps)
next
  case False
  have "1 / 2 ^ 30 \<le> ml + 100" "ml + 100 \<le> 2 ^ 40" using ml by simp_all
  then obtain a' where "round64 (ml + 100) = Num a'"
    and "(ml + 100) * (1 - 1 / 2 ^ 53) \<le> a'" and "a' \<le> (ml + 100) * (1 + 1 / 2 ^ 53)"
    using round64_rel_pos by blast
  then have ab: "255 \<le> a" "a \<le> 2 * 10 ^ 8" using a False ml by simp_all
  then have "1 / 2 ^ 30 \<le> 100 / a" "100 / a \<le> 2 ^ 40" by (simp_all add: field_simps)
  then obtain p' where "round64 (100 / a) = Num p'" and "p' \<le> 100 / a * (1 + 1 / 2 ^ 53)"
    using round64_rel_pos by blast
  then have pb: "p \<le> 100 / a * (1 + 1 / 2 ^ 53)" using p by simp
  have "100 / a \<le> 100 / 255" using ab by (simp add: field_simps)
  then show ?thesis using pb by simp
qed

lemma fav_branch:
  assumes n: "100 + 1 / 2 ^ 46 \<le> n" "n \<le> 10 ^ 8"
    and a: "round64 (n + 100) = Num a"
    and p: "round64 (n / a) = Num p"
  shows "1 / 2 \<le> p"
proof (cases "n < 101")
  case True
  have q: "quantum (n + 100) = 1 / 2 ^ 45" using n True by (intro quantum_128) simp_all
  have "round64 (n + 100) = Num (of_int (roundEven ((n + 100) * 2 ^ 45)) / 2 ^ 45)"
    by (rule round64_grid [OF q]) (use n True in simp_all)
  then have a_eq: "a = of_int (roundEven ((n + 100) * 2 ^ 45)) / 2 ^ 45" using a by simp
  have "\<bar>a - (n + 100)\<bar> \<le> 1 / 2 ^ 46"
    using scaled_err [of "1 / 2 ^ 45" "n + 100"] unfolding a_eq by simp
  then have ab: "a \<le> n + 100 + 1 / 2 ^ 46" "n + 100 - 1 / 2 ^ 46 \<le> a" by linarith+
  have a2: "a \<le> 2 * n" using ab(1) n(1) by linarith
  have an: "n < a" using ab(2) by simp
  have n0: "0 < n" using n(1) by simp
  have x: "1 / 2 \<le> n / a" "n / a < 1" using a2 an n0 by (simp_all add: field_simps)
  have q2: "quantum (n / a) = 1 / 2 ^ 53" using x by (intro quantum_half) simp_all
  have "round64 (n / a) = Num (of_int (roundEven (n / a * 2 ^ 53)) / 2 ^ 53)"
    by (rule round64_grid [OF q2]) (use x in linarith)+
  then have p_eq: "p = of_int (roundEven (n / a * 2 ^ 53)) / 2 ^ 53" using p by simp
  have "1 / 2 * 2 ^ 53 \<le> n / a * 2 ^ 53" using x(1) by (intro mult_right_mono) simp_all
  then have "of_int (2 ^ 52) \<le> n / a * 2 ^ 53" by simp
  then have "2 ^ 52 \<le> roundEven (n / a * 2 ^ 53)" by (rule roundEven_ge)
  then have "(of_int (2 ^ 52) :: real) \<le> of_int (roundEven (n / a * 2 ^ 53))"
    by (simp only: of_int_le_iff)
  then show ?thesis unfolding p_eq by (simp add: field_simps)
next
  case False
  have "1 / 2 ^ 30 \<le> n + 100" "n + 100 \<le> 2 ^ 40" using n by simp_all
  then obtain a' where "round64 (n + 100) = Num a'"
    and "(n + 100) * (1 - 1 / 2 ^ 53) \<le> a'" and "a' \<le> (n + 100) * (1 + 1 / 2 ^ 53)"
    using round64_rel_pos by blast
  then have a1: "(n + 100) * (1 - 1 / 2 ^ 53) \<le> a" and a2: "a \<le> (n + 100) * (1 + 1 / 2 ^ 53)"
    using a by simp_all
  have ab: "199 \<le> a" "a \<le> 2 * 10 ^ 8" using a1 a2 n False by simp_all
  then have "1 / 2 ^ 30 \<le> n / a" "n / a \<le> 2 ^ 40" using n False by (simp_all add: field_simps)
  then obtain p' where "round64 (n / a) = Num p'" and "n / a * (1 - 1 / 2 ^ 53) \<le> p'"
    using round64_rel_pos by blast
  then have pb: "n / a * (1 - 1 / 2 ^ 53) \<le> p" using p by simp
  have "1 / 2 \<le> n / a * (1 - 1 / 2 ^ 53)" using a2 ab False by (simp add: field_simps)
  then show ?thesis using pb by linarith
qed

lemma round_trip_dog:
  assumes ml: "100 + 1 / 2 ^ 45 \<le> ml" "ml \<le> 10 ^ 8"
  shows "\<exists>v. probToMoneyline64 (moneylineToFairProb64 (JNumber (Num ml))) =
               Num (of_int \<lfloor>v + 1 / 2\<rfloor>) \<and> \<bar>v - ml\<bar> \<le> 1 / 10 ^ 6"
proof -
  have s: "200 < ml + 100" "ml + 100 \<le> 10 ^ 8 + 100" using ml by simp_all
  have "1 / 2 ^ 30 \<le> ml + 100" "ml + 100 \<le> 2 ^ 40" using ml by simp_all
  then obtain a where a: "round64 (ml + 100) = Num a"
    and a1: "(ml + 100) * (1 - 1 / 2 ^ 53) \<le> a" and a2: "a \<le> (ml + 100) * (1 + 1 / 2 ^ 53)"
    using round64_rel_pos by blast
  have ab: "199 \<le> a" "a \<le> 2 * 10 ^ 8" using a1 a2 s by simp_all
  then have "1 / 2 ^ 30 \<le> 100 / a" "100 / a \<le> 2 ^ 40" by (simp_all add: field_simps)
  then obtain p where p: "round64 (100 / a) = Num p"
    and p1: "100 / a * (1 - 1 / 2 ^ 53) \<le> p" and p2: "p \<le> 100 / a * (1 + 1 / 2 ^ 53)"
    using round64_rel_pos by blast
  have ph: "p < 1 / 2" using ml a p by (rule dog_branch)
  have "1 / (2 * 10 ^ 6) \<le> 100 / a" using ab by (simp add: field_simps)
  then have pl: "1 / 10 ^ 7 \<le> p" using p1 by simp
  have "1 / 2 ^ 30 \<le> 1 - p" "1 - p \<le> 2 ^ 40" using ph pl by simp_all
  then obtain c where c: "round64 (1 - p) = Num c"
    and c1: "(1 - p) * (1 - 1 / 2 ^ 53) \<le> c" and c2: "c \<le> (1 - p) * (1 + 1 / 2 ^ 53)"
    using round64_rel_pos by blast
  have cb: "1 / 4 \<le> c" "c \<le> 2" using c1 c2 ph pl by simp_all
  have p0: "0 < p" using pl by (simp add: less_le_trans [of 0 "1 / 10 ^ 7"])
  have cp: "1 / 2 \<le> c / p" "c / p \<le> 20000000" using cb ph pl p0 by (simp_all add: field_simps)
  then have "1 / 2 ^ 30 \<le> c / p" "c / p \<le> 2 ^ 40" using small30 big40 by linarith+
  then obtain r where r: "round64 (c / p) = Num r"
    and r1: "c / p * (1 - 1 / 2 ^ 53) \<le> r" and r2: "r \<le> c / p * (1 + 1 / 2 ^ 53)"
    using round64_rel_pos by blast
  have rb: "1 / 4 \<le> r" "r \<le> 3 * 10 ^ 7" using r1 r2 cp by simp_all
  then have "1 / 2 ^ 30 \<le> r * 100" "r * 100 \<le> 2 ^ 40" by simp_all
  then obtain v where v: "round64 (r * 100) = Num v"
    and v1: "r * 100 * (1 - 1 / 2 ^ 53) \<le> v" and v2: "v \<le> r * 100 * (1 + 1 / 2 ^ 53)"
    using round64_rel_pos by blast
  have "\<bar>v - (ml + 100 - 100)\<bar> \<le> 1 / 10 ^ 6"
    by (rule dog_analysis [where u = "1 / 2 ^ 53", OF s a1 a2 p1 p2 ph c1 c2 r1 r2 v1 v2]) simp
  then have e: "\<bar>v - ml\<bar> \<le> 1 / 10 ^ 6" by simp
  have f: "moneylineToFairProb64 (JNumber (Num ml)) = Num p"
    using ml ab by (simp add: moneylineToFairProb64_def jgt_def dadd_def ddiv_def a p)
  have g: "probToMoneyline64 (Num p) = Num (of_int \<lfloor>v + 1 / 2\<rfloor>)"
    using ph p0 by (simp add: probToMoneyline64_def jle_def jge_def dsub_def jsub_def ddiv_def
        dmul_def c r v)
  show ?thesis using e f g by auto
qed

lemma round_trip_fav:
  assumes n: "100 + 1 / 2 ^ 46 \<le> n" "n \<le> 10 ^ 8"
  shows "\<exists>v. probToMoneyline64 (moneylineToFairProb64 (JNumber (Num (- n)))) =
               Num (of_int \<lfloor>- v + 1 / 2\<rfloor>) \<and> \<bar>v - n\<bar> \<le> 1 / 40"
proof -
  have nn: "100 \<le> n" using n(1) by simp
  have "1 / 2 ^ 30 \<le> n + 100" "n + 100 \<le> 2 ^ 40" using n by simp_all
  then obtain a where a: "round64 (n + 100) = Num a"
    and a1: "(n + 100) * (1 - 1 / 2 ^ 53) \<le> a" and a2: "a \<le> (n + 100) * (1 + 1 / 2 ^ 53)"
    using round64_rel_pos by blast
  have ab: "199 \<le> a" "a \<le> 2 * 10 ^ 8" using a1 a2 nn n(2) by simp_all
  then have "1 / 2 ^ 30 \<le> n / a" "n / a \<le> 2 ^ 40" using nn n(2) by (simp_all add: field_simps)
  then obtain p where p: "round64 (n / a) = Num p"
    and p1: "n / a * (1 - 1 / 2 ^ 53) \<le> p" and p2: "p \<le> n / a * (1 + 1 / 2 ^ 53)"
    using round64_rel_pos by blast
  have ph: "1 / 2 \<le> p" using n a p by (rule fav_branch)
  have "n / a * (1 + 1 / 2 ^ 53) \<le> 1 - 1 / 10 ^ 7" using a1 ab nn n(2) by (simp add: field_simps)
  then have pu: "p \<le> 1 - 1 / 10 ^ 7" using p2 by linarith
  then have p1': "p < 1" by simp
  have "1 / 2 ^ 30 \<le> 1 - p" "1 - p \<le> 2 ^ 40" using ph pu by simp_all
  then obtain c where c: "round64 (1 - p) = Num c"
    and c1: "(1 - p) * (1 - 1 / 2 ^ 53) \<le> c" and c2: "c \<le> (1 - p) * (1 + 1 / 2 ^ 53)"
    using round64_rel_pos by blast
  have cb: "1 / (2 * 10 ^ 7) \<le> c" "c \<le> 1" using c1 c2 ph pu by simp_all
  have c0: "0 < c" using cb(1) by (simp add: less_le_trans [of 0 "1 / (2 * 10 ^ 7)"])
  have pc: "1 / 2 \<le> p / c" "p / c \<le> 20000000" using cb ph pu c0 by (simp_all add: field_simps)
  then have "1 / 2 ^ 30 \<le> p / c" "p / c \<le> 2 ^ 40" using small30 big40 by linarith+
  then obtain r where r: "round64 (p / c) = Num r"
    and r1: "p / c * (1 - 1 / 2 ^ 53) \<le> r" and r2: "r \<le> p / c * (1 + 1 / 2 ^ 53)"
    using round64_rel_pos by blast
  have rb: "1 / 4 \<le> r" "r \<le> 3 * 10 ^ 7" using r1 r2 pc by simp_all
  then have "1 / 2 ^ 30 \<le> r * 100" "r * 100 \<le> 2 ^ 40" by simp_all
  then obtain v where v: "round64 (- (r * 100)) = Num (- v)"
    and v1: "r * 100 * (1 - 1 / 2 ^ 53) \<le> v" and v2: "v \<le> r * 100 * (1 + 1 / 2 ^ 53)"
    using round64_rel_neg by blast
  have e: "\<bar>v - n\<bar> \<le> 1 / 40"
    by (rule fav_analysis [where u = "1 / 2 ^ 53", OF nn n(2) a1 a2 p1 p2 p1' c1 c2 r1 r2 v1 v2])
      simp
  have f: "moneylineToFairProb64 (JNumber (Num (- n))) = Num p"
    using nn ab by (simp add: moneylineToFairProb64_def jgt_def dadd_def ddiv_def a p)
  have g: "probToMoneyline64 (Num p) = Num (of_int \<lfloor>- v + 1 / 2\<rfloor>)"
    using ph p1' c0 by (simp add: probToMoneyline64_def jle_def jge_def dsub_def jsub_def ddiv_def
        dmul_def c r v)
  show ?thesis using e f g by auto
qed

lemma round_trip_even_favourite:
  "probToMoneyline64 (moneylineToFairProb64 (JNumber (Num (- 100)))) = Num (- 100)"
  by (simp add: moneylineToFairProb64_def probToMoneyline64_def jgt_def jle_def jge_def
      dadd_def dsub_def dmul_def ddiv_def jsub_def round64_eval)

text \<open>
  C5 (as amended). For every double \<open>ml\<close> with \<open>-10^8 \<le> ml \<le> -100\<close>, or with
  \<open>100 + 2^-46 < ml \<le> 10^8\<close> (every underdog line above 100 but the one double next
  to it), \<open>probToMoneyline (moneylineToFairProb ml)\<close> is a non-zero integer of the same
  sign as \<open>ml\<close>, within \<open>1/2 + 1/40\<close> of \<open>ml\<close>, and equal to \<open>ml\<close> when \<open>ml\<close> is an
  integer.
\<close>

theorem round_trip64_recovers:
  assumes d: "round64 ml = Num ml"
    and r: "(- (10 ^ 8) \<le> ml \<and> ml \<le> - 100) \<or> (100 + 1 / 2 ^ 46 < ml \<and> ml \<le> 10 ^ 8)"
  shows "\<exists>k. probToMoneyline64 (moneylineToFairProb64 (JNumber (Num ml))) = Num (of_int k) \<and>
           (0 < k \<longleftrightarrow> 0 < ml) \<and> k \<noteq> 0 \<and> \<bar>of_int k - ml\<bar> \<le> 1 / 2 + 1 / 40 \<and>
           (\<forall>j. ml = of_int j \<longrightarrow> k = j)"
proof -
  consider "ml = - 100" | "- (10 ^ 8) \<le> ml" "ml < - 100" | "100 + 1 / 2 ^ 46 < ml" "ml \<le> 10 ^ 8"
    using r by fastforce
  then show ?thesis
  proof cases
    case 1
    have "probToMoneyline64 (moneylineToFairProb64 (JNumber (Num ml))) = Num (of_int (- 100))"
      using round_trip_even_favourite 1 by simp
    moreover have "\<forall>j. ml = of_int j \<longrightarrow> - 100 = j" using 1 by auto
    ultimately show ?thesis using 1 by (intro exI [of _ "- 100"]) simp
  next
    case 2
    define n where "n = - ml"
    have "100 < \<bar>ml\<bar>" using 2 by simp
    then have "100 + 1 / 2 ^ 46 \<le> \<bar>ml\<bar>" by (rule doubles_above_100(1) [OF d])
    then have n: "100 + 1 / 2 ^ 46 \<le> n" "n \<le> 10 ^ 8" using 2 by (simp_all add: n_def)
    obtain v where v: "probToMoneyline64 (moneylineToFairProb64 (JNumber (Num (- n)))) =
        Num (of_int \<lfloor>- v + 1 / 2\<rfloor>)" and e: "\<bar>v - n\<bar> \<le> 1 / 40"
      using round_trip_fav [OF n] by blast
    have e': "\<bar>- v - ml\<bar> \<le> 1 / 40" using e unfolding n_def by linarith
    define k where "k = \<lfloor>- v + 1 / 2\<rfloor>"
    have res: "probToMoneyline64 (moneylineToFairProb64 (JNumber (Num ml))) = Num (of_int k)"
      using v by (simp add: n_def k_def)
    have near: "\<bar>of_int k - ml\<bar> \<le> 1 / 2 + 1 / 40"
      unfolding k_def using e' by (rule round_half_near(1)) simp
    have int: "\<forall>j. ml = of_int j \<longrightarrow> k = j"
      unfolding k_def using round_half_near(2) [OF e'] by simp
    have "of_int k < (0::real)" using near 2 by linarith
    then have neg: "k < 0" by simp
    have "\<not> 0 < ml" using 2 by simp
    then show ?thesis using res near int neg by (intro exI [of _ k]) simp
  next
    case 3
    have "100 + 1 / 2 ^ 46 < \<bar>ml\<bar>" using 3 by simp
    then have "100 + 1 / 2 ^ 45 \<le> \<bar>ml\<bar>" by (rule doubles_above_100(2) [OF d])
    then have m: "100 + 1 / 2 ^ 45 \<le> ml" "ml \<le> 10 ^ 8" using 3 by simp_all
    obtain v where v: "probToMoneyline64 (moneylineToFairProb64 (JNumber (Num ml))) =
        Num (of_int \<lfloor>v + 1 / 2\<rfloor>)" and e: "\<bar>v - ml\<bar> \<le> 1 / 10 ^ 6"
      using round_trip_dog [OF m] by blast
    have e': "\<bar>v - ml\<bar> \<le> 1 / 40" using e by simp
    define k where "k = \<lfloor>v + 1 / 2\<rfloor>"
    have res: "probToMoneyline64 (moneylineToFairProb64 (JNumber (Num ml))) = Num (of_int k)"
      using v by (simp add: k_def)
    have near: "\<bar>of_int k - ml\<bar> \<le> 1 / 2 + 1 / 40"
      unfolding k_def using e' by (rule round_half_near(1)) simp
    have int: "\<forall>j. ml = of_int j \<longrightarrow> k = j"
      unfolding k_def using round_half_near(2) [OF e'] by simp
    have big: "100 < ml" using 3(1) by (simp add: less_trans [of 100 "100 + 1 / 2 ^ 46"])
    then have "(0::real) < of_int k" using near by linarith
    then have pos: "0 < k" by simp
    have "0 < ml" using big by linarith
    then show ?thesis using res near int pos by (intro exI [of _ k]) simp
  qed
qed

theorem round_trip64_recovers_witness:
  "probToMoneyline64 (moneylineToFairProb64 (JNumber (Num (- 150)))) = Num (- 150) \<and>
   probToMoneyline64 (moneylineToFairProb64 (JNumber (Num 130))) = Num 130 \<and>
   (\<exists>k. probToMoneyline64 (moneylineToFairProb64 (JNumber (Num 100.5))) = Num (of_int k) \<and>
      0 < k \<and> \<bar>of_int k - (100.5 :: real)\<bar> \<le> 1 / 2 + 1 / 40)"
proof -
  have d: "round64 (- 150) = Num (- 150)" "round64 130 = Num 130" "round64 100.5 = Num 100.5"
    by (simp_all add: round64_eval)
  obtain k where k: "probToMoneyline64 (moneylineToFairProb64 (JNumber (Num (- 150)))) = Num (of_int k)"
    and "\<forall>j. (- 150 :: real) = of_int j \<longrightarrow> k = j"
    using round_trip64_recovers [OF d(1)] by auto
  then have "k = - 150" by (simp add: of_int_eq_iff [symmetric] del: of_int_eq_iff)
  then have a: "probToMoneyline64 (moneylineToFairProb64 (JNumber (Num (- 150)))) = Num (- 150)"
    using k by simp
  obtain k' where k': "probToMoneyline64 (moneylineToFairProb64 (JNumber (Num 130))) = Num (of_int k')"
    and "\<forall>j. (130 :: real) = of_int j \<longrightarrow> k' = j"
    using round_trip64_recovers [OF d(2)] by auto
  then have "k' = 130" by (simp add: of_int_eq_iff [symmetric] del: of_int_eq_iff)
  then have b: "probToMoneyline64 (moneylineToFairProb64 (JNumber (Num 130))) = Num 130"
    using k' by simp
  have c: "\<exists>k. probToMoneyline64 (moneylineToFairProb64 (JNumber (Num 100.5))) = Num (of_int k) \<and>
      0 < k \<and> \<bar>of_int k - (100.5 :: real)\<bar> \<le> 1 / 2 + 1 / 40"
    using round_trip64_recovers [OF d(3)] by auto
  show ?thesis using a b c by blast
qed

text \<open>
  The even-money underdog line +100 comes back as the favourite line -100, and so does
  the next double above 100. The line -1000000001 comes back as -1000000000, and the
  line \<open>-10^19\<close>, whose fair probability rounds to 1, comes back as 0.
\<close>

theorem round_trip64_counterexample:
  "probToMoneyline64 (moneylineToFairProb64 (JNumber (Num 100))) = Num (- 100) \<and>
   probToMoneyline64 (moneylineToFairProb64 (JNumber (Num (100 + 1 / 2 ^ 46)))) = Num (- 100) \<and>
   probToMoneyline64 (moneylineToFairProb64 (JNumber (Num (- 1000000001)))) = Num (- 1000000000) \<and>
   probToMoneyline64 (moneylineToFairProb64 (JNumber (Num (- (10 ^ 19))))) = Num 0"
  by (simp add: moneylineToFairProb64_def probToMoneyline64_def jgt_def jle_def jge_def
      dadd_def dsub_def dmul_def ddiv_def jsub_def round64_eval)

section \<open>Expected value of the moneyline market\<close>

lemma payoutMultiplier_pos: "0 < m \<Longrightarrow> payoutMultiplier (Num m) = Num (m / 100 + 1)"
  by (simp add: payoutMultiplier_def jgt_def)

lemma payoutMultiplier_neg: "m < 0 \<Longrightarrow> payoutMultiplier (Num m) = Num (1 + 100 / \<bar>m\<bar>)"
  by (simp add: payoutMultiplier_def jgt_def)

lemma sideEV_Num: "sideEV (Num f) (Num w) = Num ((f * w - (1 - f)) * 100)"
  by (simp add: sideEV_def jsub_Num)

lemma calculateEV_Num:
  assumes "payoutMultiplier ml1 = Num w1" and "payoutMultiplier ml2 = Num w2"
  shows "calculateEV (Num p) ml1 ml2 =
           \<lparr>ev1 = toFixed1 (Num ((p * w1 - (1 - p)) * 100)),
            ev2 = toFixed1 (Num (((1 - p) * w2 - (1 - (1 - p))) * 100)),
            bestEV = toFixed1 (Num (max ((p * w1 - (1 - p)) * 100)
                                        (((1 - p) * w2 - (1 - (1 - p))) * 100))),
            side = (if ((1 - p) * w2 - (1 - (1 - p))) * 100 < (p * w1 - (1 - p)) * 100
                    then Team1 else Team2)\<rparr>"
  unfolding calculateEV_def Let_def assms jsub_Num sideEV_Num jmax_Num jgt_def jlt.simps
  by (rule refl)

text \<open>
  C6 (as amended). The payout multiplier is \<open>odds / 100 + 1\<close> for positive odds and
  \<open>1 + 100 / |odds|\<close> for negative odds. With payouts \<open>w1\<close>, \<open>w2\<close> for two non-zero
  moneylines and model probability \<open>p\<close>, side 1 has EV \<open>(p * w1 - (1 - p)) * 100\<close> and
  side 2 has EV \<open>((1 - p) * w2 - p) * 100\<close> (each reported to one decimal); the best EV is
  the larger of the two, and the chosen side is side 1 only when its EV is strictly
  larger: a tie goes to side 2.
\<close>

theorem calculateEV_spec:
  "(0 < m \<longrightarrow> payoutMultiplier (Num m) = Num (m / 100 + 1)) \<and>
   (m < 0 \<longrightarrow> payoutMultiplier (Num m) = Num (1 + 100 / \<bar>m\<bar>)) \<and>
   (m1 \<noteq> 0 \<and> m2 \<noteq> 0 \<longrightarrow>
      (\<exists>w1 w2. payoutMultiplier (Num m1) = Num w1 \<and> payoutMultiplier (Num m2) = Num w2 \<and>
         calculateEV (Num p) (Num m1) (Num m2) =
           \<lparr>ev1 = toFixed1 (Num ((p * w1 - (1 - p)) * 100)),
            ev2 = toFixed1 (Num (((1 - p) * w2 - (1 - (1 - p))) * 100)),
            bestEV = toFixed1 (Num (max ((p * w1 - (1 - p)) * 100)
                                        (((1 - p) * w2 - (1 - (1 - p))) * 100))),
            side = (if ((1 - p) * w2 - (1 - (1 - p))) * 100 < (p * w1 - (1 - p)) * 100
                    then Team1 else Team2)\<rparr>))"
proof (intro conjI impI)
  assume "0 < m"
  then show "payoutMultiplier (Num m) = Num (m / 100 + 1)" by (rule payoutMultiplier_pos)
next
  assume "m < 0"
  then show "payoutMultiplier (Num m) = Num (1 + 100 / \<bar>m\<bar>)" by (rule payoutMultiplier_neg)
next
  assume nz: "m1 \<noteq> 0 \<and> m2 \<noteq> 0"
  obtain w1 where w1: "payoutMultiplier (Num m1) = Num w1"
    using nz payoutMultiplier_pos [of m1] payoutMultiplier_neg [of m1] by (cases "0 < m1") auto
  obtain w2 where w2: "payoutMultiplier (Num m2) = Num w2"
    using nz payoutMultiplier_pos [of m2] payoutMultiplier_neg [of m2] by (cases "0 < m2") auto
  show "\<exists>w1 w2. payoutMultiplier (Num m1) = Num w1 \<and> payoutMultiplier (Num m2) = Num w2 \<and>
         calculateEV (Num p) (Num m1) (Num m2) =
           \<lparr>ev1 = toFixed1 (Num ((p * w1 - (1 - p)) * 100)),
            ev2 = toFixed1 (Num (((1 - p) * w2 - (1 - (1 - p))) * 100)),
            bestEV = toFixed1 (Num (max ((p * w1 - (1 - p)) * 100)
                                        (((1 - p) * w2 - (1 - (1 - p))) * 100))),
            side = (if ((1 - p) * w2 - (1 - (1 - p))) * 100 < (p * w1 - (1 - p)) * 100
                    then Team1 else Team2)\<rparr>"
    using w1 w2 calculateEV_Num [OF w1 w2] by blast
qed

theorem calculateEV_spec_witness:
  "payoutMultiplier (Num 130) = Num 2.3 \<and> payoutMultiplier (Num (- 150)) = Num (5 / 3) \<and>
   calculateEV (Num 0.6) (Num (- 150)) (Num 130) =
     \<lparr>ev1 = Num 60, ev2 = Num 32, bestEV = Num 60, side = Team1\<rparr>"
proof -
  have a: "payoutMultiplier (Num 130) = Num 2.3"
    using calculateEV_spec [of 130] by simp
  have b: "payoutMultiplier (Num (- 150)) = Num (5 / 3)"
    using calculateEV_spec [of "- 150"] by simp
  obtain w1 w2 where w: "payoutMultiplier (Num (- 150)) = Num w1" "payoutMultiplier (Num 130) = Num w2"
    "calculateEV (Num 0.6) (Num (- 150)) (Num 130) =
           \<lparr>ev1 = toFixed1 (Num ((0.6 * w1 - (1 - 0.6)) * 100)),
            ev2 = toFixed1 (Num (((1 - 0.6) * w2 - (1 - (1 - 0.6))) * 100)),
            bestEV = toFixed1 (Num (max ((0.6 * w1 - (1 - 0.6)) * 100)
                                        (((1 - 0.6) * w2 - (1 - (1 - 0.6))) * 100))),
            side = (if ((1 - 0.6) * w2 - (1 - (1 - 0.6))) * 100 < (0.6 * w1 - (1 - 0.6)) * 100
                    then Team1 else Team2)\<rparr>"
    using calculateEV_spec [of 1 "- 150" 130 "0.6"] by auto
  have v: "w1 = 5 / 3" "w2 = 2.3" using w(1,2) a b by simp_all
  have "calculateEV (Num 0.6) (Num (- 150)) (Num 130) =
     \<lparr>ev1 = Num 60, ev2 = Num 32, bestEV = Num 60, side = Team1\<rparr>"
    unfolding w(3) v by simp
  then show ?thesis using a b by simp
qed

text \<open>With equal EVs on both sides (50 each) the chosen side is side 2.\<close>

theorem calculateEV_tie_counterexample:
  "sideEV (Num 0.5) (payoutMultiplier (Num 100)) = Num 50 \<and>
   sideEV (jsub (Num 1) (Num 0.5)) (payoutMultiplier (Num 100)) = Num 50 \<and>
   side (calculateEV (Num 0.5) (Num 100) (Num 100)) = Team2"
  by (simp add: calculateEV_Num [where ?w1.0 = 2 and ?w2.0 = 2] payoutMultiplier_pos
      sideEV_Num jsub_Num)

section \<open>The heuristic probabilities of the spread and total markets\<close>

lemma team1CoverProb_Num:
  "team1CoverProb (Num p) (Num s) =
     Num (max 0.1 (min 0.9 (if s < 0 then p * (0.85 - \<bar>s\<bar> * 0.02)
                                     else p + (1 - p) * \<bar>s\<bar> * 0.05)))"
  by (simp add: team1CoverProb_def Let_def jsub_Num jmax_Num jmin_Num)

lemma overProb_Num: "overProb (Num p) = Num (max 0.3 (min 0.7 (0.45 + p * 0.1)))"
  by (simp add: overProb_def Let_def jmax_Num jmin_Num)

lemma spread_pcts:
  "team1CoverProb w s = Num c \<Longrightarrow>
   team1CoverPct (calculateSpreadEV w s o1 o2) = toFixed1 (Num (c * 100)) \<and>
   team2CoverPct (calculateSpreadEV w s o1 o2) = toFixed1 (Num ((1 - c) * 100))"
  by (simp add: calculateSpreadEV_def Let_def jsub_Num)

lemma total_pcts:
  "overProb w = Num q \<Longrightarrow>
   overPct (calculateTotalEV w t oo uo) = toFixed1 (Num (q * 100)) \<and>
   underPct (calculateTotalEV w t oo uo) = toFixed1 (Num ((1 - q) * 100))"
  by (simp add: calculateTotalEV_def Let_def jsub_Num)

text \<open>
  C10. For every finite win probability \<open>p\<close> and spread \<open>s\<close>, and whatever the total
  line and the odds are, the team-1 cover probability used by \<open>calculateSpreadEV\<close> is a
  number \<open>c\<close> in \<open>[0.1, 0.9]\<close> and team 2 gets \<open>1 - c\<close>; the over probability used by
  \<open>calculateTotalEV\<close> is a number \<open>q\<close> in \<open>[0.3, 0.7]\<close> and the under gets \<open>1 - q\<close>
  (the results report them as percentages with one decimal).
\<close>

theorem market_probabilities_clamped:
  "\<exists>c q. team1CoverProb (Num p) (Num s) = Num c \<and> 0.1 \<le> c \<and> c \<le> 0.9 \<and>
         team1CoverPct (calculateSpreadEV (Num p) (Num s) o1 o2) = toFixed1 (Num (c * 100)) \<and>
         team2CoverPct (calculateSpreadEV (Num p) (Num s) o1 o2) = toFixed1 (Num ((1 - c) * 100)) \<and>
         overProb (Num p) = Num q \<and> 0.3 \<le> q \<and> q \<le> 0.7 \<and>
         overPct (calculateTotalEV (Num p) t oo uo) = toFixed1 (Num (q * 100)) \<and>
         underPct (calculateTotalEV (Num p) t oo uo) = toFixed1 (Num ((1 - q) * 100))"
proof -
  define c where "c = max 0.1 (min 0.9 (if s < 0 then p * (0.85 - \<bar>s\<bar> * 0.02)
                                     else p + (1 - p) * \<bar>s\<bar> * 0.05))"
  define q where "q = max 0.3 (min 0.7 (0.45 + p * 0.1))"
  have c: "team1CoverProb (Num p) (Num s) = Num c"
    by (simp only: team1CoverProb_Num c_def)
  have q: "overProb (Num p) = Num q"
    by (simp only: overProb_Num q_def)
  have cb: "0.1 \<le> c \<and> c \<le> 0.9" unfolding c_def by (simp add: max_def min_def)
  have qb: "0.3 \<le> q \<and> q \<le> 0.7" unfolding q_def by (simp add: max_def min_def)
  show ?thesis
    using c q cb qb spread_pcts [OF c] total_pcts [OF q] by blast
qed

theorem market_probabilities_clamped_witness:
  "\<exists>c q. team1CoverProb (Num 0.99) (Num 7) = Num c \<and> 0.1 \<le> c \<and> c \<le> 0.9 \<and>
         team1CoverPct (calculateSpreadEV (Num 0.99) (Num 7) (Num (- 110)) (Num (- 110)))
           = toFixed1 (Num (c * 100)) \<and>
         team2CoverPct (calculateSpreadEV (Num 0.99) (Num 7) (Num (- 110)) (Num (- 110)))
           = toFixed1 (Num ((1 - c) * 100)) \<and>
         overProb (Num 0.99) = Num q \<and> 0.3 \<le> q \<and> q \<le> 0.7 \<and>
         overPct (calculateTotalEV (Num 0.99) (Num 44.5) (Num (- 110)) (Num (- 110)))
           = toFixed1 (Num (q * 100)) \<and>
         underPct (calculateTotalEV (Num 0.99) (Num 44.5) (Num (- 110)) (Num (- 110)))
           = toFixed1 (Num ((1 - q) * 100))"
  using market_probabilities_clamped
    [of "0.99" 7 "Num (- 110)" "Num (- 110)" "Num 44.5" "Num (- 110)" "Num (- 110)"]
  by simp

section \<open>Training: normalisation statistics\<close>

lemma finiteOr_zero_Num:
  "finiteOr (Num 0) v = Num (case finiteOr (Num 0) v of Num a \<Rightarrow> a | _ \<Rightarrow> 0)"
  by (cases v) (simp_all add: finiteOr_def)

lemma sum_loop:
  "foldl (\<lambda>sum xrow. jadd sum (finiteOr (Num 0) (nthOr xrow j))) (Num a) X =
     Num (a + sum_list (columnValues X j))"
proof (induction X arbitrary: a)
  case Nil
  show ?case by (simp add: columnValues_def)
next
  case (Cons xrow X)
  obtain v where v: "finiteOr (Num 0) (nthOr xrow j) = Num v"
    using finiteOr_zero_Num by blast
  have "columnValues (xrow # X) j = v # columnValues X j"
    by (simp add: columnValues_def v)
  then show ?case using Cons.IH [of "a + v"] by (simp add: v add.assoc)
qed

lemma columnMean_average:
  "X \<noteq> [] \<Longrightarrow> columnMean X j = Num (average (columnValues X j))"
  by (simp add: columnMean_def sum_loop average_def columnValues_def)

lemma variance_loop:
  assumes "nthOr ms j = Num m"
  shows "foldl (\<lambda>var xrow. let diff = jsub (finiteOr (Num 0) (nthOr xrow j)) (nthOr ms j)
                               in jadd var (jmul diff diff)) (Num a) X =
         Num (a + sum_list (map (\<lambda>x. (x - m)\<^sup>2) (columnValues X j)))"
proof (induction X arbitrary: a)
  case Nil
  show ?case by (simp add: columnValues_def)
next
  case (Cons xrow X)
  obtain v where v: "finiteOr (Num 0) (nthOr xrow j) = Num v"
    using finiteOr_zero_Num by blast
  have c: "columnValues (xrow # X) j = v # columnValues X j"
    by (simp add: columnValues_def v)
  show ?case using Cons.IH [of "a + (v - m)\<^sup>2"]
    by (simp add: v c assms jsub_def Let_def add.assoc power2_eq_square)
qed

lemma columnStd_population:
  assumes "X \<noteq> []" and "nthOr ms j = Num (average (columnValues X j))"
  shows "columnStd X ms j =
         Num (if populationStd (columnValues X j) = 0 then 1 else populationStd (columnValues X j))"
proof -
  let ?xs = "columnValues X j"
  let ?v = "sum_list (map (\<lambda>x. (x - average ?xs)\<^sup>2) ?xs)"
  have n: "real (length X) \<noteq> 0" using assms(1) by simp
  have len: "length ?xs = length X" by (simp add: columnValues_def)
  have nonneg: "0 \<le> ?v / real (length X)"
    by (intro divide_nonneg_nonneg sum_list_nonneg) auto
  have "jsqrt (jdiv (Num ?v) (Num (real (length X)))) = Num (sqrt (?v / real (length X)))"
    using n nonneg by simp
  moreover have "columnStd X ms j =
      (let variance = Num (0 + ?v); s = jsqrt (jdiv variance (Num (real (length X))))
       in if jtruthy s then s else Num 1)"
    by (simp only: columnStd_def variance_loop [OF assms(2)])
  ultimately show ?thesis
    by (simp add: populationStd_def len)
qed

lemma sqrt_200_3: "8.164 < sqrt (200 / 3) \<and> sqrt (200 / 3) < (8.166::real)"
proof
  show "8.164 < sqrt (200 / 3)" by (rule real_less_rsqrt) (simp add: power2_eq_square)
  show "sqrt (200 / 3) < (8.166::real)" by (rule real_less_lsqrt) (simp_all add: power2_eq_square)
qed

text \<open>
  C9. For every feature matrix \<open>X\<close> with at least one row, \<open>trainLogisticRegression\<close>
  returns a result whose mean of feature \<open>j\<close> is the average of column \<open>j\<close> and whose
  standard deviation is the population standard deviation of the column (divisor \<open>n\<close>,
  the number of rows), replaced by 1 when it is exactly 0. (A non-finite entry is read as
  0, as the loops do.) The witness below is the column \<open>[10, 20, 30]\<close>, with mean 20 and
  deviation \<open>sqrt (200 / 3)\<close>, about 8.165, beside the constant column \<open>[5, 5, 5]\<close>, with
  deviation 1.
\<close>

theorem training_normalisation:
  assumes "X = x0 # rest"
  shows "\<exists>r. trainLogisticRegression X y opts = Inr r \<and> samplesUsed r = length X \<and>
             means r = map (\<lambda>j. Num (average (columnValues X j))) [0..<length x0] \<and>
             stds r = map (\<lambda>j. Num (if populationStd (columnValues X j) = 0 then 1
                                       else populationStd (columnValues X j))) [0..<length x0]"
proof -
  have ne: "X \<noteq> []" using assms by simp
  let ?ms = "map (columnMean X) [0..<length x0]"
  have ms: "?ms = map (\<lambda>j. Num (average (columnValues X j))) [0..<length x0]"
    using ne by (simp add: columnMean_average)
  have at: "nthOr ?ms j = Num (average (columnValues X j))" if "j < length x0" for j
    using that ne by (simp add: nthOr_def columnMean_average)
  have ss: "map (columnStd X ?ms) [0..<length x0] =
            map (\<lambda>j. Num (if populationStd (columnValues X j) = 0 then 1
                                       else populationStd (columnValues X j))) [0..<length x0]"
    using ne at by (simp add: columnStd_population)
  show ?thesis
    unfolding trainLogisticRegression_def assms [symmetric]
    using assms ms ss
    by (simp add: Let_def del: upt_Suc)
qed

theorem training_normalisation_witness:
  "\<exists>r. trainLogisticRegression [[Num 10, Num 5], [Num 20, Num 5], [Num 30, Num 5]]
          [Num 1, Num 0, Num 1] \<lparr>learningRate = None, epochs = None, lambda = None\<rparr> = Inr r \<and>
       means r = [Num 20, Num 5] \<and> stds r = [Num (sqrt (200 / 3)), Num 1] \<and>
       8.164 < sqrt (200 / 3) \<and> sqrt (200 / 3) < (8.166::real)"
proof -
  let ?X = "[[Num 10, Num 5], [Num 20, Num 5], [Num 30, Num 5]]"
  have c0: "columnValues ?X 0 = [10, 20, 30]"
    by (simp add: columnValues_def nthOr_def finiteOr_def)
  have c1: "columnValues ?X (Suc 0) = [5, 5, 5]"
    by (simp add: columnValues_def nthOr_def finiteOr_def)
  have r: "[0..<length [Num 10, Num 5]] = [0, Suc 0]"
    by (simp add: upt_rec)
  have a0: "average [10, 20, 30] = 20" by (simp add: average_def)
  have a1: "average [5, 5, 5] = 5" by (simp add: average_def)
  have s0: "populationStd [10, 20, 30] = sqrt (200 / 3)"
    by (simp add: populationStd_def a0)
  have s1: "populationStd [5, 5, 5] = 0"
    by (simp add: populationStd_def a1)
  have nz: "sqrt (200 / 3) \<noteq> (0::real)" by simp
  obtain res where res:
    "trainLogisticRegression ?X [Num 1, Num 0, Num 1]
       \<lparr>learningRate = None, epochs = None, lambda = None\<rparr> = Inr res"
    "means res = map (\<lambda>j. Num (average (columnValues ?X j))) [0..<length [Num 10, Num 5]]"
    "stds res = map (\<lambda>j. Num (if populationStd (columnValues ?X j) = 0 then 1
                                 else populationStd (columnValues ?X j))) [0..<length [Num 10, Num 5]]"
    using training_normalisation [of ?X "[Num 10, Num 5]" "[[Num 20, Num 5], [Num 30, Num 5]]"
        "[Num 1, Num 0, Num 1]" "\<lparr>learningRate = None, epochs = None, lambda = None\<rparr>"]
    by blast
  have m: "means res = [Num 20, Num 5]"
    by (simp only: res(2) r c0 c1 a0 a1 list.map)
  have sd: "stds res = [Num (sqrt (200 / 3)), Num 1]"
    by (simp only: res(3) r c0 c1 s0 s1 nz list.map if_True if_False refl)
  show ?thesis using res(1) m sd sqrt_200_3 by blast
qed

section \<open>Training: the minimum number of rows\<close>

lemma trainModel_trains:
  assumes "20 \<le> length rows" and "filter usable rows \<noteq> []"
  shows "\<exists>m st. trainModel feats rows = Inr (m, st) \<and> features m = feats \<and>
           statsSamplesUsed st = length (filter usable rows)"
proof -
  let ?X = "map (\<lambda>r. map (featureValue r) feats) (filter usable rows)"
  let ?y = "map (\<lambda>r. toNumber (r ''winner'')) (filter usable rows)"
  let ?o = "\<lparr>learningRate = Some (Num 0.12), epochs = Some 500, lambda = Some (Num 0.012)\<rparr>"
  obtain x0 rest where X: "?X = x0 # rest" using assms(2) by (cases ?X) simp_all
  obtain res where res: "trainLogisticRegression ?X ?y ?o = Inr res" "samplesUsed res = length ?X"
    by (simp add: trainLogisticRegression_def X Let_def del: epochLoop.simps)
  show ?thesis
    using assms res unfolding trainModel_def Let_def
    by simp
qed

lemma usable_examples: "usable labelledGame" "\<not> usable unlabelledGame"
  by (simp_all add: usable_def labelledGame_def unlabelledGame_def game_def)

text \<open>
  C2 (the code at the failing input). With 20 rows of which only 5 carry a winner label,
  \<open>trainModel\<close> does not refuse: it returns a model, trained on the 5 usable rows.
\<close>

theorem trainModel_trains_on_five_usable_rows:
  "length (replicate 5 labelledGame @ replicate 15 unlabelledGame) = 20 \<and>
   length (filter usable (replicate 5 labelledGame @ replicate 15 unlabelledGame)) = 5 \<and>
   (\<exists>m st. trainModel nflFeatures (replicate 5 labelledGame @ replicate 15 unlabelledGame)
              = Inr (m, st) \<and> statsSamplesUsed st = 5)"
proof -
  let ?rows = "replicate 5 labelledGame @ replicate 15 unlabelledGame"
  have f: "filter usable ?rows = replicate 5 labelledGame"
    by (simp add: usable_examples)
  have "20 \<le> length ?rows" by simp
  moreover have "filter usable ?rows \<noteq> []" unfolding f by simp
  ultimately obtain m st where "trainModel nflFeatures ?rows = Inr (m, st)"
      "statsSamplesUsed st = length (filter usable ?rows)"
    using trainModel_trains by blast
  then show ?thesis unfolding f by auto
qed

section \<open>Rolling form\<close>

lemma pastResults_upd:
  "pastResults ((h(a \<mapsto> pastResults h a @ [x]))(b \<mapsto> pastResults h b @ [y])) k =
     pastResults h k @ (if b = k then [y] else if a = k then [x] else [])"
  by (simp add: pastResults_def)

lemma pastResults_empty: "pastResults Map.empty k = []"
  by (simp add: pastResults_def)

lemma recorded_Cons:
  "recorded ka kb oa ob (r # rs) k =
     (if kb r = k then [ob r] else if ka r = k then [oa r] else []) @ recorded ka kb oa ob rs k"
  by (simp add: recorded_def)

lemma mapRows_length:
  "mapRows step h rows = Inr outs \<Longrightarrow> length outs = length rows"
  by (induction rows arbitrary: h outs) (auto split: sum.splits prod.splits)

text \<open>
  Any callback of the shape both versions have: the row's output is computed from the
  history as it stands before the row, and the row's results are stored afterwards.
\<close>

lemma mapRows_rates:
  assumes shape: "\<And>h r. step h r =
       (if inherited (ka r) \<or> inherited (kb r) then Inl TypeError
        else Inr ((h(ka r \<mapsto> pastResults h (ka r) @ [oa r]))(kb r \<mapsto> pastResults h (kb r) @ [ob r]),
                  outf (winRate (lastFive (pastResults h (ka r))))
                       (winRate (lastFive (pastResults h (kb r)))) r))"
  shows "mapRows step h rows = Inr outs \<Longrightarrow> i < length rows \<Longrightarrow>
         outs ! i =
           outf (winRate (lastFive (pastResults h (ka (rows ! i)) @
                                    recorded ka kb oa ob (take i rows) (ka (rows ! i)))))
                (winRate (lastFive (pastResults h (kb (rows ! i)) @
                                    recorded ka kb oa ob (take i rows) (kb (rows ! i)))))
                (rows ! i)"
proof (induction rows arbitrary: h outs i)
  case Nil
  then show ?case by simp
next
  case (Cons r rs)
  let ?h = "(h(ka r \<mapsto> pastResults h (ka r) @ [oa r]))(kb r \<mapsto> pastResults h (kb r) @ [ob r])"
  let ?out = "outf (winRate (lastFive (pastResults h (ka r))))
                   (winRate (lastFive (pastResults h (kb r)))) r"
  from Cons.prems(1) have ok: "\<not> (inherited (ka r) \<or> inherited (kb r))"
    by (auto simp add: shape split: if_splits)
  then have st: "step h r = Inr (?h, ?out)" by (simp add: shape)
  from Cons.prems(1) obtain outs' where tl: "mapRows step ?h rs = Inr outs'"
    and o: "outs = ?out # outs'"
    by (auto simp add: st split: sum.splits)
  show ?case
  proof (cases i)
    case 0
    then show ?thesis by (simp add: o recorded_def)
  next
    case (Suc j)
    then have j: "j < length rs" using Cons.prems(2) by simp
    show ?thesis
      using Cons.IH [OF tl j]
      by (simp add: Suc o pastResults_upd recorded_Cons del: fun_upd_apply)
  qed
qed

lemma mapRows_total:
  assumes shape: "\<And>h r. step h r =
       (if inherited (ka r) \<or> inherited (kb r) then Inl TypeError else Inr (upd h r, outf h r))"
  shows "(\<forall>r \<in> set rows. \<not> inherited (ka r) \<and> \<not> inherited (kb r)) \<Longrightarrow>
         \<exists>outs. mapRows step h rows = Inr outs"
proof (induction rows arbitrary: h)
  case Nil
  show ?case by simp
next
  case (Cons r rs)
  then obtain outs where tl: "mapRows step (upd h r) rs = Inr outs" by fastforce
  have st: "step h r = Inr (upd h r, outf h r)" using Cons.prems by (simp add: shape)
  show ?case by (simp add: st tl)
qed

lemma last5Step_shape:
  "last5Step h r =
       (if inherited (team1Key r) \<or> inherited (team2Key r) then Inl TypeError
        else Inr ((h(team1Key r \<mapsto> pastResults h (team1Key r) @ [t1Result r]))
                    (team2Key r \<mapsto> pastResults h (team2Key r) @ [t2Result r]),
                  (\<lambda>a b r. r(''team1_last5'' := JNumber a, ''team2_last5'' := JNumber b,
                             ''winner'' := JNumber (toNumber (rowWinner r))))
                    (winRate (lastFive (pastResults h (team1Key r))))
                    (winRate (lastFive (pastResults h (team2Key r)))) r))"
  by (simp add: last5Step_def Let_def)

lemma last5Step_jsx_shape:
  "last5Step_jsx h r =
       (if inherited (team1Key_jsx r) \<or> inherited (team2Key_jsx r) then Inl TypeError
        else Inr ((h(team1Key_jsx r \<mapsto> pastResults h (team1Key_jsx r) @ [t1Result_jsx r]))
                    (team2Key_jsx r \<mapsto> pastResults h (team2Key_jsx r) @ [t2Result_jsx r]),
                  (\<lambda>a b r. r(''team1_last5'' :=
                               (if r ''team1_last5'' \<noteq> JUndefined
                                then JNumber (toNumber (r ''team1_last5'')) else JNumber a),
                             ''team2_last5'' :=
                               (if r ''team2_last5'' \<noteq> JUndefined
                                then JNumber (toNumber (r ''team2_last5'')) else JNumber b)))
                    (winRate (lastFive (pastResults h (team1Key_jsx r))))
                    (winRate (lastFive (pastResults h (team2Key_jsx r)))) r))"
  by (simp add: last5Step_jsx_def Let_def)

lemma addLast5_rates:
  assumes "addLast5WinColumns rows = Inr outs" and "i < length rows"
  shows "(outs ! i) ''team1_last5'' =
           JNumber (winRate (lastFive (recorded team1Key team2Key t1Result t2Result (take i rows)
                                         (team1Key (rows ! i)))))"
    and "(outs ! i) ''team2_last5'' =
           JNumber (winRate (lastFive (recorded team1Key team2Key t1Result t2Result (take i rows)
                                         (team2Key (rows ! i)))))"
  using mapRows_rates [where step = last5Step and h = Map.empty, OF last5Step_shape
      assms [unfolded addLast5WinColumns_def]]
  by (simp_all add: pastResults_empty)

lemma addLast5_jsx_rates:
  assumes "addLast5WinColumns_jsx rows = Inr outs" and "i < length rows"
  shows "(outs ! i) ''team1_last5'' =
           (if (rows ! i) ''team1_last5'' \<noteq> JUndefined
            then JNumber (toNumber ((rows ! i) ''team1_last5''))
            else JNumber (winRate (lastFive (recorded team1Key_jsx team2Key_jsx t1Result_jsx
                                               t2Result_jsx (take i rows) (team1Key_jsx (rows ! i))))))"
    and "(outs ! i) ''team2_last5'' =
           (if (rows ! i) ''team2_last5'' \<noteq> JUndefined
            then JNumber (toNumber ((rows ! i) ''team2_last5''))
            else JNumber (winRate (lastFive (recorded team1Key_jsx team2Key_jsx t1Result_jsx
                                               t2Result_jsx (take i rows) (team2Key_jsx (rows ! i))))))"
  using mapRows_rates [where step = last5Step_jsx and h = Map.empty, OF last5Step_jsx_shape
      assms [unfolded addLast5WinColumns_jsx_def]]
  by (simp_all add: pastResults_empty)

lemma addLast5_total:
  "(\<forall>r \<in> set rows. \<not> inherited (team1Key r) \<and> \<not> inherited (team2Key r)) \<Longrightarrow>
   \<exists>outs. addLast5WinColumns rows = Inr outs"
  unfolding addLast5WinColumns_def
  by (rule mapRows_total [where ka = team1Key and kb = team2Key, OF last5Step_shape])

lemma addLast5_jsx_total:
  "(\<forall>r \<in> set rows. \<not> inherited (team1Key_jsx r) \<and> \<not> inherited (team2Key_jsx r)) \<Longrightarrow>
   \<exists>outs. addLast5WinColumns_jsx rows = Inr outs"
  unfolding addLast5WinColumns_jsx_def
  by (rule mapRows_total [where ka = team1Key_jsx and kb = team2Key_jsx, OF last5Step_jsx_shape])

lemma winRate_Nil: "winRate [] = Num 0.5"
  by (simp add: winRate_def)

lemma foldl_plus: "foldl (\<lambda>a b. a + b) (a::nat) l = a + sum_list l"
  by (induction l arbitrary: a) simp_all

lemma winRate_nonempty: "l \<noteq> [] \<Longrightarrow> winRate l = Num (real (sum_list l) / real (length l))"
  by (simp add: winRate_def foldl_plus)

lemma lastFive_suffix:
  "length (lastFive h) = min 5 (length h) \<and> take (length h - 5) h @ lastFive h = h"
  by (simp add: lastFive_def)

lemma game_fields:
  "game t1 t2 w ''team1'' = JString t1" "game t1 t2 w ''team2'' = JString t2"
  "game t1 t2 w ''winner'' = w" "game t1 t2 w ''team1_last5'' = JUndefined"
  "game t1 t2 w ''team2_last5'' = JUndefined" "game t1 t2 w ''home_team'' = JUndefined"
  "game t1 t2 w ''away_team'' = JUndefined"
  by (simp_all add: game_def emptyRow_def)

lemma game_keys:
  "team1Key (game t1 t2 w) = (if t1 = [] then Name ''undefined'' else Name t1)"
  "team2Key (game t1 t2 w) = (if t2 = [] then Name ''undefined'' else Name t2)"
  "team1Key_jsx (game t1 t2 w) = Name t1" "team2Key_jsx (game t1 t2 w) = Name t2"
  by (simp_all add: team1Key_def team2Key_def team1Key_jsx_def team2Key_jsx_def game_fields
      jor_def)

lemma game_results:
  "t1Result (game t1 t2 (JNumber (Num w))) = (if w = 1 then 1 else 0)"
  "t2Result (game t1 t2 (JNumber (Num w))) = (if w = 0 then 1 else 0)"
  "t1Result_jsx (game t1 t2 (JNumber (Num w))) = (if w = 1 then 1 else 0)"
  "t2Result_jsx (game t1 t2 (JNumber (Num w))) = (if w = 0 then 1 else 0)"
  by (simp_all add: t1Result_def t2Result_def t1Result_jsx_def t2Result_jsx_def rowWinner_def
      isBlank_def game_fields)

lemma not_inherited_examples:
  "''A'' \<notin> set inheritedNames" "''B'' \<notin> set inheritedNames" "''C'' \<notin> set inheritedNames"
  by (simp_all add: inheritedNames_def)

lemma addLast5_jsx_cases:
  assumes "addLast5WinColumns_jsx rows = Inr outs" and "i < length rows"
  shows "(rows ! i) ''team1_last5'' = JUndefined \<Longrightarrow>
         (outs ! i) ''team1_last5'' =
           JNumber (winRate (lastFive (recorded team1Key_jsx team2Key_jsx t1Result_jsx
                                         t2Result_jsx (take i rows) (team1Key_jsx (rows ! i)))))"
    and "(rows ! i) ''team1_last5'' = JNumber (Num va) \<Longrightarrow>
         (outs ! i) ''team1_last5'' = JNumber (Num va)"
    and "(rows ! i) ''team2_last5'' = JUndefined \<Longrightarrow>
         (outs ! i) ''team2_last5'' =
           JNumber (winRate (lastFive (recorded team1Key_jsx team2Key_jsx t1Result_jsx
                                         t2Result_jsx (take i rows) (team2Key_jsx (rows ! i)))))"
    and "(rows ! i) ''team2_last5'' = JNumber (Num vb) \<Longrightarrow>
         (outs ! i) ''team2_last5'' = JNumber (Num vb)"
  using addLast5_jsx_rates [OF assms] by simp_all

text \<open>
  C1 (as amended). For rows whose team values are \<open>spelled\<close>: unless a team name is one
  of the property names every object inherits (the callback then throws), both versions
  of \<open>addLast5WinColumns\<close> return one output row per input row, and the rates computed
  for row \<open>i\<close> depend on the rows before \<open>i\<close> only: each is the win rate over the last at
  most 5 outcomes those rows recorded for that competitor, 0.5 when there is none; the
  row's own outcome is stored after its rates are computed. The version of
  \<open>unnamed/part_002\<close> assigns these rates to \<open>team1_last5\<close> and \<open>team2_last5\<close>. The
  version of \<open>src/SportsPredictionModel.jsx\<close> assigns them where the input row has no
  such property, and a row that supplies a number for \<open>team1_last5\<close> or \<open>team2_last5\<close>
  keeps that number.
\<close>

theorem rolling_form_uses_prior_rows_only:
  "(addLast5WinColumns rows = Inr outs \<and> i < length rows \<and>
    (\<forall>r \<in> set rows. spelled (jor (r ''team1'') (r ''home_team'')) \<and>
                      spelled (jor (r ''team2'') (r ''away_team''))) \<longrightarrow>
      length outs = length rows \<and>
      (outs ! i) ''team1_last5'' =
        JNumber (winRate (lastFive (recorded team1Key team2Key t1Result t2Result (take i rows)
                                      (team1Key (rows ! i))))) \<and>
      (outs ! i) ''team2_last5'' =
        JNumber (winRate (lastFive (recorded team1Key team2Key t1Result t2Result (take i rows)
                                      (team2Key (rows ! i)))))) \<and>
   (addLast5WinColumns_jsx rows = Inr outs \<and> i < length rows \<and>
    (\<forall>r \<in> set rows. spelled (r ''team1'') \<and> spelled (r ''team2'')) \<longrightarrow>
      length outs = length rows \<and>
      ((rows ! i) ''team1_last5'' = JUndefined \<longrightarrow>
         (outs ! i) ''team1_last5'' =
           JNumber (winRate (lastFive (recorded team1Key_jsx team2Key_jsx t1Result_jsx
                                         t2Result_jsx (take i rows) (team1Key_jsx (rows ! i)))))) \<and>
      ((rows ! i) ''team1_last5'' = JNumber (Num va) \<longrightarrow>
         (outs ! i) ''team1_last5'' = JNumber (Num va)) \<and>
      ((rows ! i) ''team2_last5'' = JUndefined \<longrightarrow>
         (outs ! i) ''team2_last5'' =
           JNumber (winRate (lastFive (recorded team1Key_jsx team2Key_jsx t1Result_jsx
                                         t2Result_jsx (take i rows) (team2Key_jsx (rows ! i)))))) \<and>
      ((rows ! i) ''team2_last5'' = JNumber (Num vb) \<longrightarrow>
         (outs ! i) ''team2_last5'' = JNumber (Num vb))) \<and>
   ((\<forall>r \<in> set rows. \<not> inherited (team1Key r) \<and> \<not> inherited (team2Key r)) \<longrightarrow>
      (\<exists>res. addLast5WinColumns rows = Inr res)) \<and>
   ((\<forall>r \<in> set rows. \<not> inherited (team1Key_jsx r) \<and> \<not> inherited (team2Key_jsx r)) \<longrightarrow>
      (\<exists>res. addLast5WinColumns_jsx rows = Inr res)) \<and>
   winRate [] = Num 0.5 \<and>
   (l \<noteq> [] \<longrightarrow> winRate l = Num (real (sum_list l) / real (length l))) \<and>
   length (lastFive h) = min 5 (length h) \<and> take (length h - 5) h @ lastFive h = h"
proof (intro conjI impI)
  assume a: "addLast5WinColumns rows = Inr outs \<and> i < length rows \<and>
    (\<forall>r \<in> set rows. spelled (jor (r ''team1'') (r ''home_team'')) \<and>
                      spelled (jor (r ''team2'') (r ''away_team'')))"
  then show "length outs = length rows"
    unfolding addLast5WinColumns_def using mapRows_length by blast
  from a show "(outs ! i) ''team1_last5'' =
        JNumber (winRate (lastFive (recorded team1Key team2Key t1Result t2Result (take i rows)
                                      (team1Key (rows ! i)))))"
    by (simp add: addLast5_rates)
  from a show "(outs ! i) ''team2_last5'' =
        JNumber (winRate (lastFive (recorded team1Key team2Key t1Result t2Result (take i rows)
                                      (team2Key (rows ! i)))))"
    by (simp add: addLast5_rates)
next
  assume a: "addLast5WinColumns_jsx rows = Inr outs \<and> i < length rows \<and>
    (\<forall>r \<in> set rows. spelled (r ''team1'') \<and> spelled (r ''team2''))"
  then show "length outs = length rows"
    unfolding addLast5WinColumns_jsx_def using mapRows_length by blast
next
  assume a: "addLast5WinColumns_jsx rows = Inr outs \<and> i < length rows \<and>
    (\<forall>r \<in> set rows. spelled (r ''team1'') \<and> spelled (r ''team2''))"
    and u: "(rows ! i) ''team1_last5'' = JUndefined"
  show "(outs ! i) ''team1_last5'' =
           JNumber (winRate (lastFive (recorded team1Key_jsx team2Key_jsx t1Result_jsx
                                         t2Result_jsx (take i rows) (team1Key_jsx (rows ! i)))))"
    using a u addLast5_jsx_cases(1) by blast
next
  assume a: "addLast5WinColumns_jsx rows = Inr outs \<and> i < length rows \<and>
    (\<forall>r \<in> set rows. spelled (r ''team1'') \<and> spelled (r ''team2''))"
    and u: "(rows ! i) ''team1_last5'' = JNumber (Num va)"
  show "(outs ! i) ''team1_last5'' = JNumber (Num va)"
    using a u addLast5_jsx_cases(2) by blast
next
  assume a: "addLast5WinColumns_jsx rows = Inr outs \<and> i < length rows \<and>
    (\<forall>r \<in> set rows. spelled (r ''team1'') \<and> spelled (r ''team2''))"
    and u: "(rows ! i) ''team2_last5'' = JUndefined"
  show "(outs ! i) ''team2_last5'' =
           JNumber (winRate (lastFive (recorded team1Key_jsx team2Key_jsx t1Result_jsx
                                         t2Result_jsx (take i rows) (team2Key_jsx (rows ! i)))))"
    using a u addLast5_jsx_cases(3) by blast
next
  assume a: "addLast5WinColumns_jsx rows = Inr outs \<and> i < length rows \<and>
    (\<forall>r \<in> set rows. spelled (r ''team1'') \<and> spelled (r ''team2''))"
    and u: "(rows ! i) ''team2_last5'' = JNumber (Num vb)"
  show "(outs ! i) ''team2_last5'' = JNumber (Num vb)"
    using a u addLast5_jsx_cases(4) by blast
next
  assume "\<forall>r \<in> set rows. \<not> inherited (team1Key r) \<and> \<not> inherited (team2Key r)"
  then show "\<exists>res. addLast5WinColumns rows = Inr res" by (rule addLast5_total)
next
  assume "\<forall>r \<in> set rows. \<not> inherited (team1Key_jsx r) \<and> \<not> inherited (team2Key_jsx r)"
  then show "\<exists>res. addLast5WinColumns_jsx rows = Inr res" by (rule addLast5_jsx_total)
next
  show "winRate [] = Num 0.5" by (rule winRate_Nil)
next
  assume "l \<noteq> []"
  then show "winRate l = Num (real (sum_list l) / real (length l))" by (rule winRate_nonempty)
next
  show "length (lastFive h) = min 5 (length h)" using lastFive_suffix by blast
  show "take (length h - 5) h @ lastFive h = h" using lastFive_suffix by blast
qed

theorem rolling_form_uses_prior_rows_only_witness:
  "(\<exists>outs. addLast5WinColumns threeGames = Inr outs \<and> length outs = 3 \<and>
      (outs ! 2) ''team1_last5'' = JNumber (Num 0.5) \<and>
      (outs ! 2) ''team2_last5'' = JNumber (Num 0)) \<and>
   (\<exists>outs. addLast5WinColumns_jsx threeGames = Inr outs \<and> length outs = 3 \<and>
      (outs ! 2) ''team1_last5'' = JNumber (Num 0.5) \<and>
      (outs ! 2) ''team2_last5'' = JNumber (Num 0)) \<and>
   (\<exists>outs. addLast5WinColumns_jsx [suppliedFormGame] = Inr outs \<and>
      (outs ! 0) ''team1_last5'' = JNumber (Num 0.9) \<and>
      (outs ! 0) ''team2_last5'' = JNumber (Num 0.5)) \<and>
   winRate [1, 0] = Num 0.5 \<and> lastFive [1, 1, 0, 1, 0, 0, 1] = [0, 1, 0, 0, 1]"
proof -
  have keys: "\<forall>r \<in> set threeGames. \<not> inherited (team1Key r) \<and> \<not> inherited (team2Key r)"
    "\<forall>r \<in> set threeGames. \<not> inherited (team1Key_jsx r) \<and> \<not> inherited (team2Key_jsx r)"
    by (simp_all add: threeGames_def game_keys not_inherited_examples)
  have sp: "\<forall>r \<in> set threeGames. spelled (jor (r ''team1'') (r ''home_team'')) \<and>
                                  spelled (jor (r ''team2'') (r ''away_team''))"
    "\<forall>r \<in> set threeGames. spelled (r ''team1'') \<and> spelled (r ''team2'')"
    by (simp_all add: threeGames_def game_fields jor_def)
  have len: "(2::nat) < length threeGames" "length threeGames = 3"
    by (simp_all add: threeGames_def)
  have third: "team1Key (threeGames ! 2) = Name ''A''" "team2Key (threeGames ! 2) = Name ''B''"
    "team1Key_jsx (threeGames ! 2) = Name ''A''" "team2Key_jsx (threeGames ! 2) = Name ''B''"
    "(threeGames ! 2) ''team1_last5'' = JUndefined" "(threeGames ! 2) ''team2_last5'' = JUndefined"
    by (simp_all add: threeGames_def game_keys game_fields)
  have rateA:
    "winRate (lastFive (recorded team1Key team2Key t1Result t2Result (take 2 threeGames)
                          (Name ''A''))) = Num 0.5"
    "winRate (lastFive (recorded team1Key_jsx team2Key_jsx t1Result_jsx t2Result_jsx
                          (take 2 threeGames) (Name ''A''))) = Num 0.5"
    by (simp_all add: threeGames_def recorded_def game_keys game_results winRate_def lastFive_def)
  have rateB:
    "winRate (lastFive (recorded team1Key team2Key t1Result t2Result (take 2 threeGames)
                          (Name ''B''))) = Num 0"
    "winRate (lastFive (recorded team1Key_jsx team2Key_jsx t1Result_jsx t2Result_jsx
                          (take 2 threeGames) (Name ''B''))) = Num 0"
    by (simp_all add: threeGames_def recorded_def game_keys game_results winRate_def lastFive_def)
  obtain outs where o: "addLast5WinColumns threeGames = Inr outs"
    using rolling_form_uses_prior_rows_only [of threeGames] keys(1) by blast
  have p1: "length outs = 3 \<and> (outs ! 2) ''team1_last5'' = JNumber (Num 0.5) \<and>
      (outs ! 2) ''team2_last5'' = JNumber (Num 0)"
    using rolling_form_uses_prior_rows_only [of threeGames outs 2] o len sp(1)
    by (simp add: third rateA rateB)
  obtain outs' where o': "addLast5WinColumns_jsx threeGames = Inr outs'"
    using rolling_form_uses_prior_rows_only [of threeGames] keys(2) by blast
  have p2: "length outs' = 3 \<and> (outs' ! 2) ''team1_last5'' = JNumber (Num 0.5) \<and>
      (outs' ! 2) ''team2_last5'' = JNumber (Num 0)"
    using rolling_form_uses_prior_rows_only [of threeGames outs' 2] o' len sp(2)
    by (simp add: third rateA rateB)
  have sk: "team1Key_jsx suppliedFormGame = Name ''A''" "team2Key_jsx suppliedFormGame = Name ''B''"
    "suppliedFormGame ''team1_last5'' = JNumber (Num 0.9)"
    "suppliedFormGame ''team2_last5'' = JUndefined"
    "suppliedFormGame ''team1'' = JString ''A''" "suppliedFormGame ''team2'' = JString ''B''"
    by (simp_all add: suppliedFormGame_def team1Key_jsx_def team2Key_jsx_def game_fields)
  have skeys: "\<forall>r \<in> set [suppliedFormGame].
      \<not> inherited (team1Key_jsx r) \<and> \<not> inherited (team2Key_jsx r)"
    by (simp add: sk not_inherited_examples)
  have ssp: "\<forall>r \<in> set [suppliedFormGame]. spelled (r ''team1'') \<and> spelled (r ''team2'')"
    by (simp add: sk)
  obtain outs'' where o'': "addLast5WinColumns_jsx [suppliedFormGame] = Inr outs''"
    using rolling_form_uses_prior_rows_only [of "[suppliedFormGame]"] skeys by blast
  have p3: "(outs'' ! 0) ''team1_last5'' = JNumber (Num 0.9) \<and>
      (outs'' ! 0) ''team2_last5'' = JNumber (Num 0.5)"
    using rolling_form_uses_prior_rows_only [of "[suppliedFormGame]" outs'' 0 "9 / 10"] o'' ssp
    by (simp add: sk recorded_def winRate_def lastFive_def)
  have p4: "winRate [1, 0] = Num 0.5"
    using rolling_form_uses_prior_rows_only [where l = "[1, 0]"] by simp
  have p5: "lastFive [1, 1, 0, 1, 0, 0, 1] = [0, 1, 0, 0, 1]"
    by (simp add: lastFive_def)
  show ?thesis using o p1 o' p2 o'' p3 p4 p5 by blast
qed

text \<open>
  In the version of \<open>src/SportsPredictionModel.jsx\<close> a first game whose row carries
  \<open>team1_last5 = 0.9\<close> gets form 0.9 for team 1, not the 0.5 of a competitor without
  history.
\<close>

theorem rolling_form_supplied_value_counterexample:
  "formColumns (addLast5WinColumns_jsx [suppliedFormGame]) =
     Some [(JNumber (Num 0.9), JNumber (Num 0.5))] \<and>
   recorded team1Key_jsx team2Key_jsx t1Result_jsx t2Result_jsx [] (team1Key_jsx suppliedFormGame) = [] \<and>
   JNumber (Num 0.9) \<noteq> JNumber (winRate (lastFive []))"
  by (simp add: formColumns_def addLast5WinColumns_jsx_def last5Step_jsx_def Let_def
      suppliedFormGame_def team1Key_jsx_def team2Key_jsx_def game_fields inheritedNames_def
      pastResults_def lastFive_def winRate_def recorded_def)

section \<open>The backtest simulator\<close>

lemma jadd_assoc: "jadd (jadd a b) c = jadd a (jadd b c)"
  by (cases a; cases b; cases c; simp)

lemma jadd_zero_left: "jadd (Num 0) a = a"
  by (cases a) simp_all

text \<open>
  The spread-cover rule as \<open>checkSpreadWinner\<close> implements it. The backtest loop does
  not call it: \<open>placeSpread\<close> settles a spread bet by the row's winner label.
\<close>

lemma checkSpreadWinner_rule:
  "checkSpreadWinner (JNumber (Num h)) (JNumber (Num a)) (JNumber (Num s)) =
     Some (if a < h + s then Home else if h + s < a then Away else Push)"
  by (simp add: checkSpreadWinner_def jgt_def)

subsection \<open>A run over fifty copies of a push game\<close>

lemma sigmoid_zero: "sigmoid (Num 0) = Num (1 / 2)"
  by (simp add: sigmoid_def)

lemma pushGame_fields:
  "pushGame ''winner'' = JNumber (Num 1)"
  "pushGame ''team1_moneyline'' = JNumber (Num (- 150))"
  "pushGame ''team2_moneyline'' = JNumber (Num 130)"
  "pushGame ''team1_last5'' = JNumber (Num 0.5)"
  "pushGame ''team2_last5'' = JNumber (Num 0.5)"
  "pushGame ''spread'' = JNumber (Num (- 3))"
  "pushGame ''home_final_score'' = JNumber (Num 24)"
  "pushGame ''away_final_score'' = JNumber (Num 21)"
  "pushGame ''spread_odds1'' = JUndefined"
  "pushGame ''spread_odds2'' = JUndefined"
  "pushGame ''total'' = JUndefined"
  by (simp_all add: pushGame_def game_def emptyRow_def)

lemma pushGame_is_push:
  "checkSpreadWinner (pushGame ''home_final_score'') (pushGame ''away_final_score'')
     (pushGame ''spread'') = Some Push"
  by (simp add: pushGame_fields checkSpreadWinner_def jgt_def)

lemma pushGame_prob:
  "sigmoid (linear (bias flatModel) (weights flatModel)
      (map (\<lambda>(j, v). jdiv (jsub v (nthOr (means flatModel) j)) (nthOr (stds flatModel) j))
         (zip [0..<length (map fst (map (backtestFeature pushGame) (features flatModel)))]
            (map fst (map (backtestFeature pushGame) (features flatModel)))))) = Num (1 / 2)"
  by (simp add: flatModel_def nflFeatures_def backtestFeature_def pushGame_fields jor_def
      moneylineToFairProb_def removeVig_def jgt_def jle_def finiteOr_def linear_def nthOr_def
      upt_rec sigmoid_def jsub_Num)

lemma pushGame_valid:
  "list_all snd (map (backtestFeature pushGame) (features flatModel))"
  by (simp add: flatModel_def nflFeatures_def backtestFeature_def pushGame_fields jor_def)

lemma pushGame_moneyline:
  "placeMoneyline pushGame (Num (1 / 2)) s =
     s\<lparr>moneylineMarket :=
         \<lparr>bets = bets (moneylineMarket s) + 1, correct = correct (moneylineMarket s),
          profit = jadd (profit (moneylineMarket s)) (Num (- 100)),
          evSum = jadd (evSum (moneylineMarket s)) (Num 65)\<rparr>,
       balance := jadd (balance s) (Num (- 100))\<rparr>"
  by (simp add: placeMoneyline_def pushGame_fields jor_def calculateEV_def payoutMultiplier_def
      sideEV_def jsub_Num jmax_Num jgt_def Let_def)

lemma pushGame_spread:
  "placeSpread nfl pushGame (Num (1 / 2)) s =
     s\<lparr>spreadMarket :=
         \<lparr>bets = bets (spreadMarket s) + 1, correct = correct (spreadMarket s),
          profit = jadd (profit (spreadMarket s)) (Num (- 100)),
          evSum = evSum (spreadMarket s)\<rparr>,
       balance := jadd (balance s) (Num (- 100))\<rparr>"
  by (simp add: placeSpread_def pushGame_fields jor_def calculateSpreadEV_def payoutMultiplier_def
      team1CoverProb_def sideEV_def jsub_Num jmax_Num jmin_Num jgt_def Let_def nfl_def)

lemma pushGame_total: "placeTotal nfl pushGame p s = s"
  by (simp add: placeTotal_def pushGame_fields)

lemma pushGame_step:
  "backtestStep nfl flatModel s (i, pushGame) =
     s\<lparr>moneylineMarket :=
         \<lparr>bets = bets (moneylineMarket s) + 1, correct = correct (moneylineMarket s),
          profit = jadd (profit (moneylineMarket s)) (Num (- 100)),
          evSum = jadd (evSum (moneylineMarket s)) (Num 65)\<rparr>,
       spreadMarket :=
         \<lparr>bets = bets (spreadMarket s) + 1, correct = correct (spreadMarket s),
          profit = jadd (profit (spreadMarket s)) (Num (- 100)),
          evSum = evSum (spreadMarket s)\<rparr>,
       balance := jadd (balance s) (Num (- 200)),
       balanceHistory := balanceHistory s @ [(i, jadd (balance s) (Num (- 200)))]\<rparr>"
  unfolding backtestStep_def Let_def fst_conv snd_conv pushGame_prob
  by (simp add: pushGame_valid pushGame_fields isBlank_def pushGame_moneyline pushGame_spread
      pushGame_total jadd_assoc)

lemma pushGame_run:
  assumes "\<forall>ir \<in> set irs. snd ir = pushGame"
  shows "moneylineMarket (foldl (backtestStep nfl flatModel) s irs) =
           \<lparr>bets = bets (moneylineMarket s) + length irs, correct = correct (moneylineMarket s),
            profit = jadd (profit (moneylineMarket s)) (Num (- 100 * real (length irs))),
            evSum = jadd (evSum (moneylineMarket s)) (Num (65 * real (length irs)))\<rparr> \<and>
         spreadMarket (foldl (backtestStep nfl flatModel) s irs) =
           \<lparr>bets = bets (spreadMarket s) + length irs, correct = correct (spreadMarket s),
            profit = jadd (profit (spreadMarket s)) (Num (- 100 * real (length irs))),
            evSum = evSum (spreadMarket s)\<rparr> \<and>
         totalMarket (foldl (backtestStep nfl flatModel) s irs) = totalMarket s \<and>
         balance (foldl (backtestStep nfl flatModel) s irs) =
           jadd (balance s) (Num (- 200 * real (length irs)))"
  using assms
proof (induction irs arbitrary: s)
  case Nil
  show ?case by (cases "profit (moneylineMarket s)"; cases "evSum (moneylineMarket s)";
      cases "profit (spreadMarket s)"; cases "balance s"; simp)
next
  case (Cons ir irs)
  obtain i where ir: "ir = (i, pushGame)" using Cons.prems by (cases ir) simp
  have rest: "\<forall>ir \<in> set irs. snd ir = pushGame" using Cons.prems by simp
  show ?case
    using Cons.IH [OF rest, of "backtestStep nfl flatModel s ir"]
    by (simp add: ir pushGame_step jadd_assoc algebra_simps)
qed

lemma pushGame_rows:
  "\<forall>ir \<in> set (drop 20 (zip [0..<length (replicate 50 pushGame)] (replicate 50 pushGame))).
     snd ir = pushGame"
  by (auto dest!: in_set_dropD set_zip_rightD)

lemma pushGame_backtest:
  "moneylineMarket (backtestLoop nfl flatModel (replicate 50 pushGame)) =
     \<lparr>bets = 30, correct = 0, profit = Num (- 3000), evSum = Num 1950\<rparr> \<and>
   spreadMarket (backtestLoop nfl flatModel (replicate 50 pushGame)) =
     \<lparr>bets = 30, correct = 0, profit = Num (- 3000), evSum = Num 0\<rparr> \<and>
   totalMarket (backtestLoop nfl flatModel (replicate 50 pushGame)) =
     \<lparr>bets = 0, correct = 0, profit = Num 0, evSum = Num 0\<rparr> \<and>
   balance (backtestLoop nfl flatModel (replicate 50 pushGame)) = Num 4000"
  unfolding backtestLoop_def
  using pushGame_run [OF pushGame_rows, of initialState]
  by (simp add: initialState_def)

text \<open>
  C7 (the code at the failing input). Fifty copies of a game that is a push against the
  spread (24 + (-3) = 21): the backtest places a spread bet on each of the 30 rows after
  the warm-up, counts every one of them as a bet that was not won, and books a loss of
  100 for each: the spread market ends with 30 bets, 0 correct and a profit of -3000.
\<close>

theorem backtest_push_spread_bet_loses:
  "checkSpreadWinner (pushGame ''home_final_score'') (pushGame ''away_final_score'')
     (pushGame ''spread'') = Some Push \<and>
   (\<exists>res. runBacktest (\<lambda>rows. rows) nfl (Some flatModel) (replicate 50 pushGame) = Inr res \<and>
      fst (snd (marketBets res)) =
        \<lparr>bets = 30, correct = 0, profit = Num (- 3000), evSum = Num 0\<rparr>)"
  using pushGame_backtest by (simp add: pushGame_is_push runBacktest_def Let_def)

theorem backtest_push_spread_bet_loses_witness:
  "\<exists>res. runBacktest (\<lambda>rows. rows) nfl (Some flatModel) (replicate 50 pushGame) = Inr res \<and>
     profit (fst (snd (marketBets res))) = Num (- 3000) \<and>
     bets (fst (snd (marketBets res))) = 30 \<and> correct (fst (snd (marketBets res))) = 0"
proof -
  obtain res where "runBacktest (\<lambda>rows. rows) nfl (Some flatModel) (replicate 50 pushGame) = Inr res"
    and "fst (snd (marketBets res)) = \<lparr>bets = 30, correct = 0, profit = Num (- 3000), evSum = Num 0\<rparr>"
    using backtest_push_spread_bet_loses by blast
  then show ?thesis by simp
qed

subsection \<open>The accounts of a run\<close>

















subsection \<open>A run with one bet won and one bet lost at -640\<close>









subsection \<open>A run with bets in the three markets\<close>













text \<open>
  In doubles the two sums of the same payouts can differ before any rounding to cents.
  One bet won at -150 pays \<open>100 * (100 / 150)\<close>, the double 66.66666666666666: added to
  0 it is the profit; added to 10000, with 10000 taken off again, it is
  66.66666666666606.
\<close>

lemma won_bet_in_doubles:
  "dmul (Num 100) (ddiv (Num 100) (Num 150)) = Num (2345624805922133 / 2 ^ 45) \<and>
   dadd (Num 0) (Num (2345624805922133 / 2 ^ 45)) = Num (2345624805922133 / 2 ^ 45) \<and>
   dadd (Num 10000) (Num (2345624805922133 / 2 ^ 45)) = Num (5534208526472533 / 2 ^ 39) \<and>
   dsub (Num (5534208526472533 / 2 ^ 39)) (Num 10000) = Num (36650387592533 / 2 ^ 39) \<and>
   (36650387592533 / 2 ^ 39 :: real) < 2345624805922133 / 2 ^ 45"
  by (simp add: dadd_def dsub_def dmul_def ddiv_def jsub_def round64_eval)

end
